theory Spec2Isabelle
  imports Complex_Main
begin

section \<open>QtGraphEdge: the edge item of the graph view\<close>

text \<open>
  A shallow embedding of \<^verbatim>\<open>src/lib_gui/qt/view/graphElements/QtGraphEdge.cpp\<close>.
  The edge is a record of its member variables, every member function is a function from
  the edge to a result: either the error of a null pointer dereference, or the updated
  edge together with what the call sent to the outside (messages dispatched on the
  message bus, warnings logged), in order.
\<close>

subsection \<open>Collaborators\<close>

type_synonym Id = nat
type_synonym NameHierarchy = "string list"
type_synonym Vec2i = "int \<times> int"
type_synonym Vec4i = "int \<times> int \<times> int \<times> int"

text \<open>
  The enumerations are declared in headers outside this file. The enumerators this file
  names are constructors of their own; every other enumerator is \<open>EDGE_OTHER n\<close>
  (\<open>DIRECTION_OTHER n\<close>, \<open>ROUTE_OTHER n\<close>, \<open>PIVOT_OTHER n\<close>).
\<close>

datatype EdgeType = EDGE_INHERITANCE | EDGE_AGGREGATION | EDGE_OTHER nat

datatype Direction = DIRECTION_NONE | DIRECTION_BACKWARD | DIRECTION_OTHER nat

datatype Route = ROUTE_HORIZONTAL | ROUTE_OTHER nat

datatype Pivot = PIVOT_MIDDLE | PIVOT_OTHER nat

text \<open>
  \<^verbatim>\<open>const Edge*\<close>: what this file reads of an edge of the graph. The from and to nodes
  are read only for their name hierarchies. \<open>getAggregationComponent\<close> is the result of
  \<^verbatim>\<open>getComponent<TokenComponentAggregation>()\<close>, \<open>None\<close> when the edge has no such
  component, and otherwise the component's aggregation ids in the order of the set.
\<close>

record Edge =
  getId :: Id
  getType :: EdgeType
  getFromNameHierarchy :: NameHierarchy
  getToNameHierarchy :: NameHierarchy
  getAggregationComponent :: "Id list option"

text \<open>What this file reads of a \<^verbatim>\<open>QtGraphNode\<close>.\<close>

record QtGraphNode =
  nodeIsActive :: bool
  getTokenId :: Id
  getBoundingRect :: Vec4i
  getParentBoundingRect :: Vec4i
  getLastParent :: "nat option"

text \<open>
  A \<^verbatim>\<open>std::weak_ptr<QtGraphNode>\<close> is the address of a node; the nodes alive are those
  the store maps to a value. \<open>lock\<close> of an expired pointer is the null pointer.
\<close>

type_synonym NodePtr = nat
type_synonym NodeStore = "NodePtr \<Rightarrow> QtGraphNode option"

definition lock :: "NodeStore \<Rightarrow> NodePtr \<Rightarrow> QtGraphNode option" where
  "lock h p = h p"

text \<open>
  \<^verbatim>\<open>GraphViewStyle::EdgeStyle\<close>: this file reads \<open>isStraight\<close> and \<open>zValue\<close>; the other
  fields are the extension of the record. \<^verbatim>\<open>GraphViewStyle\<close> and
  \<^verbatim>\<open>Edge::getTypeString\<close> are defined elsewhere and are parameters here.
\<close>

record EdgeStyle =
  isStraight :: bool
  zValue :: int

record ('m, 'ns) Env =
  getStyleForEdgeType :: "EdgeType \<Rightarrow> bool \<Rightarrow> bool \<Rightarrow> 'm EdgeStyle_scheme"
  getStyleOfCountCircle :: 'ns
  getTypeString :: "EdgeType \<Rightarrow> string"

text \<open>
  The line items are classes of their own. A line item is modelled by its class and the
  calls it has received, oldest first.
\<close>

datatype ('s, 'ns) LineCall =
    StraightUpdateLine Vec4i Vec4i nat 's 'ns bool
  | SetOnBack bool
  | SetHorizontalIn bool
  | SetOnFront bool
  | SetRoute Route
  | SetPivot Pivot
  | AngledUpdateLine Vec4i Vec4i Vec4i Vec4i 's nat bool
  | SetToolTip string

datatype LineKind = QtStraightLineItem | QtAngledLineItem

record ('s, 'ns) LineItem =
  kind :: LineKind
  calls :: "('s, 'ns) LineCall list"

definition newLineItem :: "LineKind \<Rightarrow> ('s, 'ns) LineItem" where
  "newLineItem k = \<lparr>kind = k, calls = []\<rparr>"

text \<open>\<^verbatim>\<open>dynamic_cast\<close> to a line item class: the null pointer for an item of the other class.\<close>

definition dynamic_cast :: "LineKind \<Rightarrow> ('s, 'ns) LineItem \<Rightarrow> ('s, 'ns) LineItem option" where
  "dynamic_cast k c = (if kind c = k then Some c else None)"

definition call :: "('s, 'ns) LineCall list \<Rightarrow> ('s, 'ns) LineItem \<Rightarrow> ('s, 'ns) LineItem" where
  "call cs c = c\<lparr>calls := calls c @ cs\<rparr>"

subsection \<open>Messages, effects, results\<close>

datatype Message =
    MessageActivateEdge Id EdgeType NameHierarchy NameHierarchy "Id list"
  | MessageGraphNodeBundleSplit Id
  | MessageFocusIn "Id list"
  | MessageFocusOut "Id list"

datatype Effect = Dispatch Message | LogWarning string

text \<open>
  The undefined behaviour the code can run into: the dereference of a null pointer, and
  an \<^verbatim>\<open>int\<close> result that the type cannot hold.
\<close>

datatype error = NullDereference | IntegerOverflow

type_synonym 'a result = "error + 'a \<times> Effect list"

definition andThen :: "'a result \<Rightarrow> ('a \<Rightarrow> 'b result) \<Rightarrow> 'b result" where
  "andThen r f =
     (case r of
        Inl err \<Rightarrow> Inl err
      | Inr (a, out) \<Rightarrow>
          (case f a of
             Inl err \<Rightarrow> Inl err
           | Inr (b, out') \<Rightarrow> Inr (b, out @ out')))"

subsection \<open>The edge\<close>

text \<open>
  The member variables, and \<open>m_zValue\<close> for the z-value of the graphics item the class
  derives from.
\<close>

record ('m, 'ns) QtGraphEdge =
  m_data :: "Edge option"
  m_owner :: NodePtr
  m_target :: NodePtr
  m_child :: "('m EdgeStyle_scheme, 'ns) LineItem option"
  m_isActive :: bool
  m_fromActive :: bool
  m_toActive :: bool
  m_weight :: nat
  m_direction :: Direction
  m_mousePos :: Vec2i
  m_mouseMoved :: bool
  m_zValue :: int

definition getData :: "('m, 'ns) QtGraphEdge \<Rightarrow> Edge option" where
  "getData e = m_data e"

definition getOwner :: "('m, 'ns) QtGraphEdge \<Rightarrow> NodePtr" where
  "getOwner e = m_owner e"

definition getTarget :: "('m, 'ns) QtGraphEdge \<Rightarrow> NodePtr" where
  "getTarget e = m_target e"

definition getIsActive :: "('m, 'ns) QtGraphEdge \<Rightarrow> bool" where
  "getIsActive e = m_isActive e"

subsection \<open>updateLine\<close>

text \<open>The type of lines 79 to 87: the type of the data, \<open>EDGE_AGGREGATION\<close> without data.\<close>

definition lineType :: "('m, 'ns) QtGraphEdge \<Rightarrow> EdgeType" where
  "lineType e = (case getData e of Some d \<Rightarrow> getType d | None \<Rightarrow> EDGE_AGGREGATION)"

text \<open>\<^verbatim>\<open>QString::number\<close> of an unsigned number: its decimal digits.\<close>

fun number :: "nat \<Rightarrow> string" where
  "number n =
     (if n < 10 then [char_of (48 + n)]
      else number (n div 10) @ [char_of (48 + n mod 10)])"

declare number.simps [simp del]

text \<open>The tool tip of lines 148 to 156.\<close>

definition toolTip :: "('m, 'ns) Env \<Rightarrow> EdgeType \<Rightarrow> nat \<Rightarrow> string" where
  "toolTip env type weight =
     getTypeString env type @
     (if type = EDGE_AGGREGATION
      then '': '' @ number weight @ '' edge'' @ (if weight \<noteq> 1 then ''s'' else '''')
      else '''')"

text \<open>
  Lines 98 to 103, the calls on the straight line item: the arrow is shown unless the
  direction is \<open>DIRECTION_NONE\<close>.
\<close>

definition straightShowArrow :: "('m, 'ns) QtGraphEdge \<Rightarrow> bool" where
  "straightShowArrow e = (m_direction e \<noteq> DIRECTION_NONE)"

definition straightCalls ::
  "('m, 'ns) Env \<Rightarrow> QtGraphNode \<Rightarrow> QtGraphNode \<Rightarrow> ('m, 'ns) QtGraphEdge \<Rightarrow>
   'm EdgeStyle_scheme \<Rightarrow> ('m EdgeStyle_scheme, 'ns) LineCall list" where
  "straightCalls env owner target e style =
     [StraightUpdateLine (getBoundingRect owner) (getBoundingRect target) (m_weight e)
        style (getStyleOfCountCircle env) (straightShowArrow e)]"

text \<open>Lines 114 to 145, the calls on the angled line item, in the order of the code.\<close>

definition angledShowArrow :: "('m, 'ns) QtGraphEdge \<Rightarrow> EdgeType \<Rightarrow> bool" where
  "angledShowArrow e type =
     (if type = EDGE_AGGREGATION then m_direction e \<noteq> DIRECTION_NONE else True)"

definition angledCalls ::
  "QtGraphNode \<Rightarrow> QtGraphNode \<Rightarrow> ('m, 'ns) QtGraphEdge \<Rightarrow> EdgeType \<Rightarrow>
   'm EdgeStyle_scheme \<Rightarrow> ('m EdgeStyle_scheme, 'ns) LineCall list" where
  "angledCalls owner target e type style =
     (if m_fromActive e \<and> getLastParent owner = getLastParent target
      then [SetOnBack True] else []) @
     (if m_toActive e
      then SetHorizontalIn True #
           (if getLastParent owner = getLastParent target then [SetOnFront True] else [])
      else []) @
     (if type \<noteq> EDGE_INHERITANCE \<and> type \<noteq> EDGE_AGGREGATION
      then [SetRoute ROUTE_HORIZONTAL] else []) @
     (if type = EDGE_AGGREGATION then [SetPivot PIVOT_MIDDLE] else []) @
     [AngledUpdateLine (getBoundingRect owner) (getBoundingRect target)
        (getParentBoundingRect owner) (getParentBoundingRect target)
        style (m_weight e) (angledShowArrow e type)]"

definition nullWarning :: string where
  "nullWarning = ''Either the owner or the target node is null.''"

definition updateLine ::
  "('m, 'ns) Env \<Rightarrow> NodeStore \<Rightarrow> ('m, 'ns) QtGraphEdge \<Rightarrow> ('m, 'ns) QtGraphEdge result" where
  "updateLine env h e =
     (case (lock h (m_owner e), lock h (m_target e)) of
        (Some owner, Some target) \<Rightarrow>
          (let type = lineType e;
               style = getStyleForEdgeType env type (m_isActive e) False
           in if isStraight style then
                (let child = (case m_child e of
                                None \<Rightarrow> newLineItem QtStraightLineItem
                              | Some c \<Rightarrow> c)
                 in case dynamic_cast QtStraightLineItem child of
                      None \<Rightarrow> Inl NullDereference
                    | Some line \<Rightarrow>
                        Inr (e\<lparr>m_child :=
                                 Some (call (straightCalls env owner target e style @
                                             [SetToolTip (toolTip env type (m_weight e))]) line),
                               m_zValue := zValue style\<rparr>, []))
              else
                (let child = (case m_child e of
                                None \<Rightarrow> newLineItem QtAngledLineItem
                              | Some c \<Rightarrow> c)
                 in case dynamic_cast QtAngledLineItem child of
                      None \<Rightarrow> Inl NullDereference
                    | Some line \<Rightarrow>
                        Inr (e\<lparr>m_child :=
                                 Some (call (angledCalls owner target e type style @
                                             [SetToolTip (toolTip env type (m_weight e))]) line),
                               m_zValue := zValue style\<rparr>, [])))
      | _ \<Rightarrow> Inr (e, [LogWarning nullWarning]))"

subsection \<open>The constructor\<close>

definition QtGraphEdge_new ::
  "('m, 'ns) Env \<Rightarrow> NodeStore \<Rightarrow> NodePtr \<Rightarrow> NodePtr \<Rightarrow> Edge option \<Rightarrow> nat \<Rightarrow> bool \<Rightarrow>
   Direction \<Rightarrow> ('m, 'ns) QtGraphEdge result" where
  "QtGraphEdge_new env h owner target data weight isActive direction =
     (let e0 = \<lparr>m_data = data, m_owner = owner, m_target = target, m_child = None,
                m_isActive = isActive, m_fromActive = False, m_toActive = False,
                m_weight = weight, m_direction = direction, m_mousePos = (0, 0),
                m_mouseMoved = False, m_zValue = 0\<rparr>;
          e1 = (if m_direction e0 = DIRECTION_BACKWARD
                then e0\<lparr>m_owner := m_target e0, m_target := m_owner e0\<rparr>
                else e0)
      in case lock h (m_owner e1) of
           None \<Rightarrow> Inl NullDereference
         | Some ownerNode \<Rightarrow>
             (let e2 = e1\<lparr>m_fromActive := nodeIsActive ownerNode\<rparr>
              in case lock h (m_target e2) of
                   None \<Rightarrow> Inl NullDereference
                 | Some targetNode \<Rightarrow>
                     updateLine env h (e2\<lparr>m_toActive := nodeIsActive targetNode\<rparr>)))"

subsection \<open>Activity, direction, focus\<close>

definition setIsActive ::
  "('m, 'ns) Env \<Rightarrow> NodeStore \<Rightarrow> bool \<Rightarrow> ('m, 'ns) QtGraphEdge \<Rightarrow> ('m, 'ns) QtGraphEdge result" where
  "setIsActive env h isActive e =
     (if m_isActive e \<noteq> isActive
      then updateLine env h (e\<lparr>m_isActive := isActive\<rparr>)
      else Inr (e, []))"

definition setDirection ::
  "('m, 'ns) Env \<Rightarrow> NodeStore \<Rightarrow> Direction \<Rightarrow> ('m, 'ns) QtGraphEdge \<Rightarrow>
   ('m, 'ns) QtGraphEdge result" where
  "setDirection env h direction e =
     (if m_direction e \<noteq> direction
      then updateLine env h (e\<lparr>m_direction := direction\<rparr>)
      else Inr (e, []))"

definition focusIn ::
  "('m, 'ns) Env \<Rightarrow> NodeStore \<Rightarrow> ('m, 'ns) QtGraphEdge \<Rightarrow> ('m, 'ns) QtGraphEdge result" where
  "focusIn env h e =
     (let isActive = m_isActive e
      in andThen (setIsActive env h True e) (\<lambda>e'. Inr (e'\<lparr>m_isActive := isActive\<rparr>, [])))"

definition focusOut ::
  "('m, 'ns) Env \<Rightarrow> NodeStore \<Rightarrow> ('m, 'ns) QtGraphEdge \<Rightarrow> ('m, 'ns) QtGraphEdge result" where
  "focusOut env h e = updateLine env h e"

subsection \<open>onClick\<close>

definition onClick :: "NodeStore \<Rightarrow> ('m, 'ns) QtGraphEdge \<Rightarrow> ('m, 'ns) QtGraphEdge result" where
  "onClick h e =
     (case getData e of
        None \<Rightarrow>
          (let node = (if m_direction e = DIRECTION_BACKWARD then m_owner e else m_target e)
           in case lock h node of
                None \<Rightarrow> Inl NullDereference
              | Some n \<Rightarrow> Inr (e, [Dispatch (MessageGraphNodeBundleSplit (getTokenId n))]))
      | Some d \<Rightarrow>
          (if getType d = EDGE_AGGREGATION
           then (case getAggregationComponent d of
                   None \<Rightarrow> Inl NullDereference
                 | Some ids \<Rightarrow>
                     Inr (e, [Dispatch (MessageActivateEdge (getId d) (getType d)
                                (getFromNameHierarchy d) (getToNameHierarchy d) ids)]))
           else Inr (e, [Dispatch (MessageActivateEdge (getId d) (getType d)
                           (getFromNameHierarchy d) (getToNameHierarchy d) [])])))"

subsection \<open>Mouse and hover events\<close>

text \<open>
  The scene position of an event is a pair of \<^verbatim>\<open>qreal\<close>, here of real numbers.

  Modelled from the spec: the class \<^verbatim>\<open>Vec2i\<close> (\<^verbatim>\<open>utility/math/Vector2.h\<close>) is not among
  the sources. It is the vector of two \<^verbatim>\<open>int\<close> coordinates whose \<open>getLength\<close> is the
  distance the spec speaks of: the root of the sum of the squared coordinates. An \<^verbatim>\<open>int\<close>
  has 32 bits. A conversion, a difference, a square or a sum of squares that leaves the
  range of \<^verbatim>\<open>int\<close> is undefined behaviour, the error \<open>IntegerOverflow\<close>. The \<^verbatim>\<open>float\<close>
  root is compared with 1 only; rounding does not change that comparison (the root of 1 is
  1, every other root of a sum in range is 0 or at least that of 2), so the root is exact here.
\<close>

definition INT_MIN :: int where
  "INT_MIN = - (2 ^ 31)"

definition INT_MAX :: int where
  "INT_MAX = 2 ^ 31 - 1"

definition inInt :: "int \<Rightarrow> bool" where
  "inInt i = (INT_MIN \<le> i \<and> i \<le> INT_MAX)"

definition checked :: "int \<Rightarrow> error + int" where
  "checked i = (if inInt i then Inr i else Inl IntegerOverflow)"

text \<open>The number without its fraction: the value of the conversion to \<^verbatim>\<open>int\<close>, when in range.\<close>

definition truncateReal :: "real \<Rightarrow> int" where
  "truncateReal x = (if 0 \<le> x then \<lfloor>x\<rfloor> else \<lceil>x\<rceil>)"

definition toInt :: "real \<Rightarrow> error + int" where
  "toInt x = checked (truncateReal x)"

definition Vec2i :: "real \<Rightarrow> real \<Rightarrow> error + Vec2i" where
  "Vec2i x y =
     (case toInt x of
        Inl err \<Rightarrow> Inl err
      | Inr a \<Rightarrow> (case toInt y of Inl err \<Rightarrow> Inl err | Inr b \<Rightarrow> Inr (a, b)))"

definition minusVec :: "Vec2i \<Rightarrow> Vec2i \<Rightarrow> error + Vec2i" where
  "minusVec a b =
     (case checked (fst a - fst b) of
        Inl err \<Rightarrow> Inl err
      | Inr x \<Rightarrow> (case checked (snd a - snd b) of Inl err \<Rightarrow> Inl err | Inr y \<Rightarrow> Inr (x, y)))"

definition getLength :: "Vec2i \<Rightarrow> error + real" where
  "getLength v =
     (case checked (fst v * fst v) of
        Inl err \<Rightarrow> Inl err
      | Inr xx \<Rightarrow>
          (case checked (snd v * snd v) of
             Inl err \<Rightarrow> Inl err
           | Inr yy \<Rightarrow>
               (case checked (xx + yy) of
                  Inl err \<Rightarrow> Inl err
                | Inr s \<Rightarrow> Inr (sqrt (real_of_int s)))))"

definition mousePressEvent ::
  "real \<times> real \<Rightarrow> ('m, 'ns) QtGraphEdge \<Rightarrow> ('m, 'ns) QtGraphEdge result" where
  "mousePressEvent scenePos e =
     (case Vec2i (fst scenePos) (snd scenePos) of
        Inl err \<Rightarrow> Inl err
      | Inr pos \<Rightarrow> Inr (e\<lparr>m_mousePos := pos, m_mouseMoved := False\<rparr>, []))"

definition mouseMoveEvent ::
  "real \<times> real \<Rightarrow> ('m, 'ns) QtGraphEdge \<Rightarrow> ('m, 'ns) QtGraphEdge result" where
  "mouseMoveEvent scenePos e =
     (case Vec2i (fst scenePos) (snd scenePos) of
        Inl err \<Rightarrow> Inl err
      | Inr mousePos \<Rightarrow>
          (case minusVec mousePos (m_mousePos e) of
             Inl err \<Rightarrow> Inl err
           | Inr d \<Rightarrow>
               (case getLength d of
                  Inl err \<Rightarrow> Inl err
                | Inr len \<Rightarrow>
                    if len > 1 then Inr (e\<lparr>m_mouseMoved := True\<rparr>, []) else Inr (e, []))))"

definition mouseReleaseEvent ::
  "NodeStore \<Rightarrow> ('m, 'ns) QtGraphEdge \<Rightarrow> ('m, 'ns) QtGraphEdge result" where
  "mouseReleaseEvent h e = (if \<not> m_mouseMoved e then onClick h e else Inr (e, []))"

definition hoverEnterEvent ::
  "('m, 'ns) Env \<Rightarrow> NodeStore \<Rightarrow> ('m, 'ns) QtGraphEdge \<Rightarrow> ('m, 'ns) QtGraphEdge result" where
  "hoverEnterEvent env h e =
     (case getData e of
        None \<Rightarrow> focusIn env h e
      | Some d \<Rightarrow> Inr (e, [Dispatch (MessageFocusIn [getId d])]))"

definition hoverLeaveEvent ::
  "('m, 'ns) Env \<Rightarrow> NodeStore \<Rightarrow> ('m, 'ns) QtGraphEdge \<Rightarrow> ('m, 'ns) QtGraphEdge result" where
  "hoverLeaveEvent env h e =
     (case getData e of
        None \<Rightarrow> focusOut env h e
      | Some d \<Rightarrow> Inr (e, [Dispatch (MessageFocusOut [getId d])]))"

subsection \<open>Notions used in the properties\<close>

text \<open>
  The class of line item that \<open>updateLine\<close> selects for an edge, and the condition under
  which its \<^verbatim>\<open>dynamic_cast\<close> succeeds: there is no child yet, or the child is of that
  class.
\<close>

definition lineKind :: "('m, 'ns) Env \<Rightarrow> ('m, 'ns) QtGraphEdge \<Rightarrow> LineKind" where
  "lineKind env e =
     (if isStraight (getStyleForEdgeType env (lineType e) (m_isActive e) False)
      then QtStraightLineItem else QtAngledLineItem)"

definition childFits :: "('m, 'ns) Env \<Rightarrow> ('m, 'ns) QtGraphEdge \<Rightarrow> bool" where
  "childFits env e = (case m_child e of None \<Rightarrow> True | Some c \<Rightarrow> kind c = lineKind env e)"

text \<open>The calls the child had received before, none when there is no child.\<close>

definition oldCalls :: "('m, 'ns) QtGraphEdge \<Rightarrow> ('m EdgeStyle_scheme, 'ns) LineCall list" where
  "oldCalls e = (case m_child e of None \<Rightarrow> [] | Some c \<Rightarrow> calls c)"

text \<open>The \<^verbatim>\<open>updateLine\<close> calls among the calls of a line item.\<close>

fun isUpdateLine :: "('s, 'ns) LineCall \<Rightarrow> bool" where
  "isUpdateLine (StraightUpdateLine a b w s c arrow) = True"
| "isUpdateLine (AngledUpdateLine a b pa pb s w arrow) = True"
| "isUpdateLine _ = False"

definition updateLineCalls :: "('s, 'ns) LineCall list \<Rightarrow> ('s, 'ns) LineCall list" where
  "updateLineCalls cs = filter isUpdateLine cs"

text \<open>The style and the arrow flag passed by the \<^verbatim>\<open>updateLine\<close> calls among the calls.\<close>

fun styleArg :: "('s, 'ns) LineCall \<Rightarrow> 's list" where
  "styleArg (StraightUpdateLine a b w s c arrow) = [s]"
| "styleArg (AngledUpdateLine a b pa pb s w arrow) = [s]"
| "styleArg _ = []"

fun showArrowArg :: "('s, 'ns) LineCall \<Rightarrow> bool list" where
  "showArrowArg (StraightUpdateLine a b w s c arrow) = [arrow]"
| "showArrowArg (AngledUpdateLine a b pa pb s w arrow) = [arrow]"
| "showArrowArg _ = []"

definition styleArgs :: "('s, 'ns) LineCall list \<Rightarrow> 's list" where
  "styleArgs cs = concat (map styleArg cs)"

definition showArrowArgs :: "('s, 'ns) LineCall list \<Rightarrow> bool list" where
  "showArrowArgs cs = concat (map showArrowArg cs)"

text \<open>
  A style whose \<open>isStraight\<close> does not depend on the activity of the edge (the second
  argument of \<open>getStyleForEdgeType\<close>).
\<close>

definition straightByType :: "('m, 'ns) Env \<Rightarrow> bool" where
  "straightByType env =
     (\<forall>t a. isStraight (getStyleForEdgeType env t a False) =
            isStraight (getStyleForEdgeType env t True False))"

text \<open>
  The states of an edge: the result of the constructor and of every member function that
  returns, whatever the nodes alive at each call.
\<close>

inductive reachable :: "('m, 'ns) Env \<Rightarrow> ('m, 'ns) QtGraphEdge \<Rightarrow> bool" for env where
  constructed:
    "QtGraphEdge_new env h owner target data weight isActive direction = Inr (e, out) \<Longrightarrow>
     reachable env e"
| after_updateLine:
    "reachable env e \<Longrightarrow> updateLine env h e = Inr (e', out) \<Longrightarrow> reachable env e'"
| after_setIsActive:
    "reachable env e \<Longrightarrow> setIsActive env h b e = Inr (e', out) \<Longrightarrow> reachable env e'"
| after_setDirection:
    "reachable env e \<Longrightarrow> setDirection env h d e = Inr (e', out) \<Longrightarrow> reachable env e'"
| after_focusIn:
    "reachable env e \<Longrightarrow> focusIn env h e = Inr (e', out) \<Longrightarrow> reachable env e'"
| after_focusOut:
    "reachable env e \<Longrightarrow> focusOut env h e = Inr (e', out) \<Longrightarrow> reachable env e'"
| after_onClick:
    "reachable env e \<Longrightarrow> onClick h e = Inr (e', out) \<Longrightarrow> reachable env e'"
| after_mousePressEvent:
    "reachable env e \<Longrightarrow> mousePressEvent p e = Inr (e', out) \<Longrightarrow> reachable env e'"
| after_mouseMoveEvent:
    "reachable env e \<Longrightarrow> mouseMoveEvent p e = Inr (e', out) \<Longrightarrow> reachable env e'"
| after_mouseReleaseEvent:
    "reachable env e \<Longrightarrow> mouseReleaseEvent h e = Inr (e', out) \<Longrightarrow> reachable env e'"
| after_hoverEnterEvent:
    "reachable env e \<Longrightarrow> hoverEnterEvent env h e = Inr (e', out) \<Longrightarrow> reachable env e'"
| after_hoverLeaveEvent:
    "reachable env e \<Longrightarrow> hoverLeaveEvent env h e = Inr (e', out) \<Longrightarrow> reachable env e'"

text \<open>The distance between two scene positions.\<close>

definition sceneDistance :: "real \<times> real \<Rightarrow> real \<times> real \<Rightarrow> real" where
  "sceneDistance p q = sqrt ((fst q - fst p)\<^sup>2 + (snd q - snd p)\<^sup>2)"

text \<open>
  The position of an event in integer coordinates, and the distance between two positions
  in integer coordinates.
\<close>

definition truncated :: "real \<times> real \<Rightarrow> Vec2i" where
  "truncated p = (truncateReal (fst p), truncateReal (snd p))"

definition truncatedDistance :: "real \<times> real \<Rightarrow> real \<times> real \<Rightarrow> real" where
  "truncatedDistance p q =
     sqrt (real_of_int ((truncateReal (fst q) - truncateReal (fst p))\<^sup>2 +
                        (truncateReal (snd q) - truncateReal (snd p))\<^sup>2))"

text \<open>
  The positions whose integer coordinates are in the range of \<^verbatim>\<open>int\<close>, and the moves from
  a press position for which the differences of the coordinates, their squares and the sum
  of the squares are in that range as well.
\<close>

definition positionInRange :: "real \<times> real \<Rightarrow> bool" where
  "positionInRange p = (inInt (truncateReal (fst p)) \<and> inInt (truncateReal (snd p)))"

definition moveInRange :: "real \<times> real \<Rightarrow> real \<times> real \<Rightarrow> bool" where
  "moveInRange p q =
     (positionInRange q \<and>
      inInt (truncateReal (fst q) - truncateReal (fst p)) \<and>
      inInt (truncateReal (snd q) - truncateReal (snd p)) \<and>
      inInt ((truncateReal (fst q) - truncateReal (fst p)) *
             (truncateReal (fst q) - truncateReal (fst p))) \<and>
      inInt ((truncateReal (snd q) - truncateReal (snd p)) *
             (truncateReal (snd q) - truncateReal (snd p))) \<and>
      inInt ((truncateReal (fst q) - truncateReal (fst p)) *
             (truncateReal (fst q) - truncateReal (fst p)) +
             (truncateReal (snd q) - truncateReal (snd p)) *
             (truncateReal (snd q) - truncateReal (snd p))))"

definition allMovesInRange :: "real \<times> real \<Rightarrow> (real \<times> real) list \<Rightarrow> bool" where
  "allMovesInRange p qs = (positionInRange p \<and> list_all (moveInRange p) qs)"

definition someMoveFar :: "real \<times> real \<Rightarrow> (real \<times> real) list \<Rightarrow> bool" where
  "someMoveFar p qs = list_ex (\<lambda>q. 1 < truncatedDistance p q) qs"

text \<open>The positions with scene coordinates below 16384 in absolute value.\<close>

definition smallPosition :: "real \<times> real \<Rightarrow> bool" where
  "smallPosition p = (\<bar>fst p\<bar> < 16384 \<and> \<bar>snd p\<bar> < 16384)"

text \<open>
  A press at a scene position, followed by moves to the positions of a list, followed by
  a release.
\<close>

definition pressAndMove ::
  "real \<times> real \<Rightarrow> (real \<times> real) list \<Rightarrow> ('m, 'ns) QtGraphEdge \<Rightarrow>
   ('m, 'ns) QtGraphEdge result" where
  "pressAndMove p qs e =
     foldl (\<lambda>r q. andThen r (mouseMoveEvent q)) (mousePressEvent p e) qs"

definition pressMoveRelease ::
  "NodeStore \<Rightarrow> real \<times> real \<Rightarrow> (real \<times> real) list \<Rightarrow> ('m, 'ns) QtGraphEdge \<Rightarrow>
   ('m, 'ns) QtGraphEdge result" where
  "pressMoveRelease h p qs e = andThen (pressAndMove p qs e) (mouseReleaseEvent h)"

subsection \<open>Example inputs\<close>

definition exampleEnv :: "(unit, unit) Env" where
  "exampleEnv =
     \<lparr>getStyleForEdgeType =
        (\<lambda>t a f. \<lparr>isStraight = (t = EDGE_AGGREGATION), zValue = (if a then 5 else 2)\<rparr>),
      getStyleOfCountCircle = (),
      getTypeString = (\<lambda>t. if t = EDGE_AGGREGATION then ''aggregation'' else ''edge'')\<rparr>"

definition nodeA :: QtGraphNode where
  "nodeA = \<lparr>nodeIsActive = True, getTokenId = 11, getBoundingRect = (0, 0, 10, 10),
            getParentBoundingRect = (0, 0, 50, 50), getLastParent = Some 7\<rparr>"

definition nodeB :: QtGraphNode where
  "nodeB = \<lparr>nodeIsActive = False, getTokenId = 12, getBoundingRect = (30, 0, 40, 10),
            getParentBoundingRect = (0, 0, 50, 50), getLastParent = Some 7\<rparr>"

definition exampleStore :: NodeStore where
  "exampleStore = [1 \<mapsto> nodeA, 2 \<mapsto> nodeB]"

definition callData :: Edge where
  "callData = \<lparr>getId = 5, getType = EDGE_OTHER 0, getFromNameHierarchy = [''A'', ''f''],
               getToNameHierarchy = [''B'', ''g''], getAggregationComponent = None\<rparr>"

definition aggregationData :: Edge where
  "aggregationData = \<lparr>getId = 6, getType = EDGE_AGGREGATION, getFromNameHierarchy = [''A''],
                      getToNameHierarchy = [''B''], getAggregationComponent = Some [5, 9]\<rparr>"

definition edgeOf :: "Edge option \<Rightarrow> Direction \<Rightarrow> (unit, unit) QtGraphEdge" where
  "edgeOf data direction =
     \<lparr>m_data = data, m_owner = 1, m_target = 2, m_child = None, m_isActive = False,
      m_fromActive = True, m_toActive = False, m_weight = 3, m_direction = direction,
      m_mousePos = (0, 0), m_mouseMoved = False, m_zValue = 0\<rparr>"

definition edgeWithChild :: "(unit, unit) QtGraphEdge" where
  "edgeWithChild =
     (edgeOf None DIRECTION_NONE)
       \<lparr>m_child := Some \<lparr>kind = QtStraightLineItem, calls = [SetToolTip ''aggregation'']\<rparr>\<rparr>"

section \<open>Properties\<close>

subsection \<open>Auxiliary facts\<close>

lemma andThen_Inl [simp]: "andThen (Inl err) f = Inl err"
  by (simp add: andThen_def)

lemma andThen_Inr [simp]:
  "andThen (Inr (a, out)) f =
     (case f a of Inl err \<Rightarrow> Inl err | Inr (b, out') \<Rightarrow> Inr (b, out @ out'))"
  by (simp add: andThen_def)

lemma updateLine_expired:
  "lock h (m_owner e) = None \<or> lock h (m_target e) = None \<Longrightarrow>
   updateLine env h e = Inr (e, [LogWarning nullWarning])"
  by (auto simp: updateLine_def split: option.splits)

lemma updateLine_alive_straight:
  assumes "lock h (m_owner e) = Some owner" and "lock h (m_target e) = Some target"
    and "childFits env e"
    and "isStraight (getStyleForEdgeType env (lineType e) (m_isActive e) False)"
  shows "updateLine env h e =
     Inr (e\<lparr>m_child := Some \<lparr>kind = QtStraightLineItem,
                calls = oldCalls e @
                  straightCalls env owner target e
                    (getStyleForEdgeType env (lineType e) (m_isActive e) False) @
                  [SetToolTip (toolTip env (lineType e) (m_weight e))]\<rparr>,
            m_zValue := zValue (getStyleForEdgeType env (lineType e) (m_isActive e) False)\<rparr>, [])"
  using assms
  by (cases "m_child e")
     (simp_all add: updateLine_def childFits_def lineKind_def oldCalls_def Let_def
        dynamic_cast_def newLineItem_def call_def)

lemma updateLine_alive_angled:
  assumes "lock h (m_owner e) = Some owner" and "lock h (m_target e) = Some target"
    and "childFits env e"
    and "\<not> isStraight (getStyleForEdgeType env (lineType e) (m_isActive e) False)"
  shows "updateLine env h e =
     Inr (e\<lparr>m_child := Some \<lparr>kind = QtAngledLineItem,
                calls = oldCalls e @
                  angledCalls owner target e (lineType e)
                    (getStyleForEdgeType env (lineType e) (m_isActive e) False) @
                  [SetToolTip (toolTip env (lineType e) (m_weight e))]\<rparr>,
            m_zValue := zValue (getStyleForEdgeType env (lineType e) (m_isActive e) False)\<rparr>, [])"
  using assms
  by (cases "m_child e")
     (simp_all add: updateLine_def childFits_def lineKind_def oldCalls_def Let_def
        dynamic_cast_def newLineItem_def call_def)

text \<open>What \<open>updateLine\<close> leaves as it is, and that it sends no message.\<close>

lemma updateLine_frame:
  assumes "updateLine env h e = Inr (e', out)"
  shows "m_data e' = m_data e \<and> m_owner e' = m_owner e \<and> m_target e' = m_target e \<and>
         m_isActive e' = m_isActive e \<and> m_fromActive e' = m_fromActive e \<and>
         m_toActive e' = m_toActive e \<and> m_weight e' = m_weight e \<and>
         m_direction e' = m_direction e \<and> m_mousePos e' = m_mousePos e \<and>
         m_mouseMoved e' = m_mouseMoved e \<and> (\<forall>m. Dispatch m \<notin> set out)"
  using assms
  by (auto simp: updateLine_def Let_def split: option.splits if_splits)

lemma updateLine_total:
  "childFits env e \<Longrightarrow> \<exists>e' out. updateLine env h e = Inr (e', out)"
proof (cases "lock h (m_owner e) = None \<or> lock h (m_target e) = None")
  case True
  then show ?thesis by (simp add: updateLine_expired)
next
  case False
  assume fits: "childFits env e"
  from False obtain owner target
    where alive: "lock h (m_owner e) = Some owner" "lock h (m_target e) = Some target"
    by auto
  show ?thesis
  proof (cases "isStraight (getStyleForEdgeType env (lineType e) (m_isActive e) False)")
    case True
    from updateLine_alive_straight [OF alive fits True] show ?thesis by blast
  next
    case False
    from updateLine_alive_angled [OF alive fits False] show ?thesis by blast
  qed
qed

text \<open>
  The type of an edge depends on its data only. After \<open>updateLine\<close>, and so after the
  constructor, the child is of the class the style selects.
\<close>

lemma lineType_frame [simp]:
  "lineType (e\<lparr>m_isActive := b\<rparr>) = lineType e"
  "lineType (e\<lparr>m_direction := d\<rparr>) = lineType e"
  "lineType (e\<lparr>m_mouseMoved := b\<rparr>) = lineType e"
  "lineType (e\<lparr>m_mousePos := p\<rparr>) = lineType e"
  by (simp_all add: lineType_def getData_def)

lemma updateLine_childFits:
  assumes "updateLine env h e = Inr (e', out)" and "childFits env e"
  shows "childFits env e'"
  using assms
  by (auto simp: updateLine_def Let_def childFits_def lineKind_def lineType_def getData_def
        dynamic_cast_def call_def
      split: option.splits if_splits)

lemma QtGraphEdge_new_childFits:
  assumes "QtGraphEdge_new env h owner target data weight isActive direction = Inr (e, out)"
  shows "childFits env e"
proof -
  from assms obtain e0 where "updateLine env h e0 = Inr (e, out)" and "m_child e0 = None"
    by (auto simp: QtGraphEdge_new_def Let_def split: option.splits if_splits)
  then show ?thesis
    using updateLine_childFits [of env h e0 e out] by (simp add: childFits_def)
qed

lemma straightByType_any:
  "straightByType env \<Longrightarrow>
   isStraight (getStyleForEdgeType env t a False) = isStraight (getStyleForEdgeType env t b False)"
  unfolding straightByType_def by metis

lemma childFits_isActive:
  assumes "straightByType env"
  shows "childFits env (e\<lparr>m_isActive := b\<rparr>) = childFits env e"
  using straightByType_any [OF assms, of "lineType e" b "m_isActive e"]
  by (simp add: childFits_def lineKind_def split: option.splits)

lemma example_alive:
  "lock exampleStore (m_owner (edgeOf data direction)) = Some nodeA"
  "lock exampleStore (m_target (edgeOf data direction)) = Some nodeB"
  by (simp_all add: lock_def exampleStore_def edgeOf_def)

lemma example_childFits: "childFits exampleEnv (edgeOf data direction)"
  by (simp add: childFits_def edgeOf_def)

lemma example_oldCalls: "oldCalls (edgeOf data direction) = []"
  by (simp add: oldCalls_def edgeOf_def)

lemma example_straight:
  "isStraight (getStyleForEdgeType exampleEnv t a f) = (t = EDGE_AGGREGATION)"
  "zValue (getStyleForEdgeType exampleEnv t a f) = (if a then 5 else 2)"
  by (simp_all add: exampleEnv_def)

lemma example_fields:
  "getData (edgeOf data direction) = data"
  "m_isActive (edgeOf data direction) = False"
  "m_direction (edgeOf data direction) = direction"
  "m_weight (edgeOf data direction) = 3"
  by (simp_all add: getData_def edgeOf_def)

lemma example_lineType:
  "lineType (edgeOf (Some callData) direction) = EDGE_OTHER 0"
  "lineType (edgeOf None direction) = EDGE_AGGREGATION"
  by (simp_all add: lineType_def getData_def edgeOf_def callData_def)

lemma edgeWithChild_facts:
  "lock exampleStore (m_owner edgeWithChild) = Some nodeA"
  "lock exampleStore (m_target edgeWithChild) = Some nodeB"
  "childFits exampleEnv edgeWithChild"
  "oldCalls edgeWithChild = [SetToolTip ''aggregation'']"
  "lineType edgeWithChild = EDGE_AGGREGATION"
  "m_isActive edgeWithChild = False"
  "m_direction edgeWithChild = DIRECTION_NONE"
  "m_weight edgeWithChild = 3"
  by (simp_all add: edgeWithChild_def edgeOf_def lock_def exampleStore_def childFits_def
      lineKind_def lineType_def getData_def oldCalls_def exampleEnv_def)

subsection \<open>The null check\<close>

text \<open>
  Claim C3. \<open>updateLine\<close> on an edge whose owner or target node has expired logs the
  warning and returns the edge as it is. The constructor, which locks the owner and the
  target (after the swap of a backward edge), and \<open>onClick\<close> on an edge without data,
  which locks the node of the bundle, have no such check: on an expired node they
  dereference the null pointer.
\<close>

theorem only_updateLine_checks_null:
  "(lock h (m_owner e) = None \<or> lock h (m_target e) = None \<longrightarrow>
      updateLine env h e = Inr (e, [LogWarning nullWarning])) \<and>
   (lock h (if direction = DIRECTION_BACKWARD then target else owner) = None \<or>
    lock h (if direction = DIRECTION_BACKWARD then owner else target) = None \<longrightarrow>
      QtGraphEdge_new env h owner target data weight isActive direction = Inl NullDereference) \<and>
   (getData e = None \<and>
    lock h (if m_direction e = DIRECTION_BACKWARD then m_owner e else m_target e) = None \<longrightarrow>
      onClick h e = Inl NullDereference)"
proof (intro conjI impI)
  assume "lock h (m_owner e) = None \<or> lock h (m_target e) = None"
  then show "updateLine env h e = Inr (e, [LogWarning nullWarning])"
    by (rule updateLine_expired)
next
  assume "lock h (if direction = DIRECTION_BACKWARD then target else owner) = None \<or>
          lock h (if direction = DIRECTION_BACKWARD then owner else target) = None"
  then show "QtGraphEdge_new env h owner target data weight isActive direction =
             Inl NullDereference"
    by (auto simp: QtGraphEdge_new_def Let_def split: option.splits if_splits)
next
  assume "getData e = None \<and>
          lock h (if m_direction e = DIRECTION_BACKWARD then m_owner e else m_target e) = None"
  then show "onClick h e = Inl NullDereference"
    by (simp add: onClick_def)
qed

theorem only_updateLine_checks_null_witness:
  "updateLine exampleEnv exampleStore ((edgeOf None DIRECTION_NONE)\<lparr>m_target := 3\<rparr>) =
     Inr ((edgeOf None DIRECTION_NONE)\<lparr>m_target := 3\<rparr>, [LogWarning nullWarning]) \<and>
   QtGraphEdge_new exampleEnv exampleStore 1 3 None 3 False DIRECTION_NONE =
     Inl NullDereference \<and>
   onClick exampleStore ((edgeOf None DIRECTION_NONE)\<lparr>m_target := 3\<rparr>) = Inl NullDereference"
  using only_updateLine_checks_null [where h = exampleStore
      and e = "(edgeOf None DIRECTION_NONE)\<lparr>m_target := 3\<rparr>" and env = exampleEnv
      and direction = DIRECTION_NONE and owner = 1 and target = 3 and data = None
      and weight = 3 and isActive = False]
  by (simp add: lock_def exampleStore_def edgeOf_def getData_def)

subsection \<open>The constructor\<close>

lemma QtGraphEdge_new_total:
  assumes "lock h owner \<noteq> None" and "lock h target \<noteq> None"
  shows "\<exists>e out. QtGraphEdge_new env h owner target data weight isActive direction =
                 Inr (e, out)"
proof -
  from assms obtain a b where ab: "lock h owner = Some a" "lock h target = Some b"
    by auto
  have fits: "\<And>e0 :: ('a, 'b) QtGraphEdge. m_child e0 = None \<Longrightarrow> childFits env e0"
    by (simp add: childFits_def)
  show ?thesis
    using ab by (auto simp: QtGraphEdge_new_def Let_def intro!: updateLine_total fits)
qed

lemma QtGraphEdge_new_ends:
  assumes "QtGraphEdge_new env h owner target data weight isActive direction = Inr (e, out)"
  shows "m_owner e = (if direction = DIRECTION_BACKWARD then target else owner) \<and>
         m_target e = (if direction = DIRECTION_BACKWARD then owner else target)"
  using assms
  by (auto simp: QtGraphEdge_new_def Let_def split: option.splits if_splits
      dest!: updateLine_frame)

text \<open>
  Claim C8. A construction from two nodes that are alive returns an edge. The edge of every
  construction that returns has the arguments swapped when the direction is
  \<open>DIRECTION_BACKWARD\<close>: \<open>getOwner\<close> is the target argument and \<open>getTarget\<close> is the
  owner argument. For every other direction they are the arguments as given.
\<close>

theorem constructor_swaps_backward:
  "(lock h owner \<noteq> None \<and> lock h target \<noteq> None \<longrightarrow>
      (\<exists>e out. QtGraphEdge_new env h owner target data weight isActive direction =
                Inr (e, out))) \<and>
   (\<forall>e out. QtGraphEdge_new env h owner target data weight isActive direction = Inr (e, out) \<longrightarrow>
      (direction = DIRECTION_BACKWARD \<longrightarrow> getOwner e = target \<and> getTarget e = owner) \<and>
      (direction \<noteq> DIRECTION_BACKWARD \<longrightarrow> getOwner e = owner \<and> getTarget e = target))"
  using QtGraphEdge_new_total [of h owner target env data weight isActive direction]
    QtGraphEdge_new_ends [of env h owner target data weight isActive direction]
  by (auto simp: getOwner_def getTarget_def)

theorem constructor_swaps_backward_witness:
  "(\<exists>e out. QtGraphEdge_new exampleEnv exampleStore 1 2 None 3 False DIRECTION_BACKWARD =
      Inr (e, out) \<and> getOwner e = 2 \<and> getTarget e = 1) \<and>
   (\<exists>e out. QtGraphEdge_new exampleEnv exampleStore 1 2 None 3 False DIRECTION_NONE =
      Inr (e, out) \<and> getOwner e = 1 \<and> getTarget e = 2)"
  using constructor_swaps_backward [where h = exampleStore and env = exampleEnv
      and owner = 1 and target = 2 and data = None and weight = 3 and isActive = False
      and direction = DIRECTION_BACKWARD]
    constructor_swaps_backward [where h = exampleStore and env = exampleEnv
      and owner = 1 and target = 2 and data = None and weight = 3 and isActive = False
      and direction = DIRECTION_NONE]
  by (auto simp: lock_def exampleStore_def)

subsection \<open>The line item and its style\<close>

lemma updateLineCalls_angled:
  "updateLineCalls (angledCalls owner target e type style @ [SetToolTip tip]) =
     [AngledUpdateLine (getBoundingRect owner) (getBoundingRect target)
        (getParentBoundingRect owner) (getParentBoundingRect target)
        style (m_weight e) (angledShowArrow e type)]"
  by (simp add: updateLineCalls_def angledCalls_def)

lemma updateLineCalls_straight:
  "updateLineCalls (straightCalls env owner target e style @ [SetToolTip tip]) =
     [StraightUpdateLine (getBoundingRect owner) (getBoundingRect target) (m_weight e)
        style (getStyleOfCountCircle env) (m_direction e \<noteq> DIRECTION_NONE)]"
  by (simp add: updateLineCalls_def straightCalls_def straightShowArrow_def)

lemma styleArgs_calls:
  "styleArgs (angledCalls owner target e type style @ [SetToolTip tip]) = [style]"
  "styleArgs (straightCalls env owner target e style @ [SetToolTip tip]) = [style]"
  by (auto simp: styleArgs_def angledCalls_def straightCalls_def)

lemma showArrowArgs_calls:
  "showArrowArgs (angledCalls owner target e type style @ [SetToolTip tip]) =
     [if type = EDGE_AGGREGATION then m_direction e \<noteq> DIRECTION_NONE else True]"
  "showArrowArgs (straightCalls env owner target e style @ [SetToolTip tip]) =
     [m_direction e \<noteq> DIRECTION_NONE]"
  by (auto simp: showArrowArgs_def angledCalls_def straightCalls_def angledShowArrow_def
      straightShowArrow_def)

lemma angledCalls_route:
  "SetRoute r \<in> set (angledCalls owner target e type style) \<longleftrightarrow>
     r = ROUTE_HORIZONTAL \<and> type \<noteq> EDGE_INHERITANCE \<and> type \<noteq> EDGE_AGGREGATION"
  by (auto simp: angledCalls_def)

lemma angledCalls_pivot:
  "SetPivot p \<in> set (angledCalls owner target e type style) \<longleftrightarrow>
     p = PIVOT_MIDDLE \<and> type = EDGE_AGGREGATION"
  by (auto simp: angledCalls_def)

text \<open>
  Claim C2. \<open>updateLine\<close> on an edge whose owner and target are alive, and whose child,
  if there is one, is of the class the style selects: the class of the child is selected
  by \<open>isStraight\<close> of the style of the type of the edge. For a straight style the child is a
  \<open>QtStraightLineItem\<close> and receives one \<^verbatim>\<open>updateLine\<close> call, with the bounding
  rectangles of the two nodes, the weight, the style and the style of the count circle;
  otherwise it is a \<open>QtAngledLineItem\<close> and receives one \<^verbatim>\<open>updateLine\<close> call, with the
  bounding rectangles of the nodes and of their parents. An existing child is kept: the
  calls of this run follow the calls it had received. The edge sends nothing.
\<close>

theorem updateLine_chooses_route:
  assumes "lock h (m_owner e) = Some owner" and "lock h (m_target e) = Some target"
    and "childFits env e"
  shows "\<exists>e' c new. updateLine env h e = Inr (e', []) \<and> m_child e' = Some c \<and>
           calls c = oldCalls e @ new \<and>
           (if isStraight (getStyleForEdgeType env (lineType e) (m_isActive e) False)
            then kind c = QtStraightLineItem \<and>
                 updateLineCalls new =
                   [StraightUpdateLine (getBoundingRect owner) (getBoundingRect target)
                      (m_weight e) (getStyleForEdgeType env (lineType e) (m_isActive e) False)
                      (getStyleOfCountCircle env) (m_direction e \<noteq> DIRECTION_NONE)]
            else kind c = QtAngledLineItem \<and>
                 updateLineCalls new =
                   [AngledUpdateLine (getBoundingRect owner) (getBoundingRect target)
                      (getParentBoundingRect owner) (getParentBoundingRect target)
                      (getStyleForEdgeType env (lineType e) (m_isActive e) False)
                      (m_weight e) (angledShowArrow e (lineType e))])"
proof (cases "isStraight (getStyleForEdgeType env (lineType e) (m_isActive e) False)")
  case True
  from updateLine_alive_straight [OF assms True] True show ?thesis
    by (simp add: updateLineCalls_straight)
next
  case False
  from updateLine_alive_angled [OF assms False] False show ?thesis
    by (simp add: updateLineCalls_angled)
qed

theorem updateLine_chooses_route_witness:
  "(\<exists>e' c. updateLine exampleEnv exampleStore (edgeOf (Some callData) DIRECTION_NONE) =
       Inr (e', []) \<and> m_child e' = Some c \<and> kind c = QtAngledLineItem \<and>
       updateLineCalls (calls c) =
         [AngledUpdateLine (0, 0, 10, 10) (30, 0, 40, 10) (0, 0, 50, 50) (0, 0, 50, 50)
            \<lparr>isStraight = False, zValue = 2\<rparr> 3 True]) \<and>
   (\<exists>e' c. updateLine exampleEnv exampleStore (edgeOf None DIRECTION_NONE) =
       Inr (e', []) \<and> m_child e' = Some c \<and> kind c = QtStraightLineItem \<and>
       updateLineCalls (calls c) =
         [StraightUpdateLine (0, 0, 10, 10) (30, 0, 40, 10) 3
            \<lparr>isStraight = True, zValue = 2\<rparr> () False]) \<and>
   (\<exists>e' c new. updateLine exampleEnv exampleStore edgeWithChild =
       Inr (e', []) \<and> m_child e' = Some c \<and> kind c = QtStraightLineItem \<and>
       calls c = SetToolTip ''aggregation'' # new \<and>
       updateLineCalls new =
         [StraightUpdateLine (0, 0, 10, 10) (30, 0, 40, 10) 3
            \<lparr>isStraight = True, zValue = 2\<rparr> () False])"
  using updateLine_chooses_route [OF example_alive example_childFits,
      of "Some callData" DIRECTION_NONE]
    updateLine_chooses_route [OF example_alive example_childFits, of None DIRECTION_NONE]
    updateLine_chooses_route [OF edgeWithChild_facts(1,2,3)]
  by (auto simp: example_oldCalls example_straight example_lineType example_fields
      edgeWithChild_facts nodeA_def nodeB_def exampleEnv_def angledShowArrow_def)

text \<open>
  Claim C5. The style of \<open>updateLine\<close> is \<open>getStyleForEdgeType\<close> of the type, the activity
  flag and \<open>False\<close>, the type being that of the data, and \<open>EDGE_AGGREGATION\<close> on an edge
  without data. That style is the one passed to the line item, and its \<open>zValue\<close> becomes
  the z-value of the edge.
\<close>

theorem updateLine_style_zValue:
  assumes "lock h (m_owner e) = Some owner" and "lock h (m_target e) = Some target"
    and "childFits env e"
  shows "\<exists>e' c new. updateLine env h e = Inr (e', []) \<and> m_child e' = Some c \<and>
           calls c = oldCalls e @ new \<and>
           styleArgs new =
             [getStyleForEdgeType env
                (case getData e of Some d \<Rightarrow> getType d | None \<Rightarrow> EDGE_AGGREGATION)
                (m_isActive e) False] \<and>
           m_zValue e' =
             zValue (getStyleForEdgeType env
                (case getData e of Some d \<Rightarrow> getType d | None \<Rightarrow> EDGE_AGGREGATION)
                (m_isActive e) False)"
proof (cases "isStraight (getStyleForEdgeType env (lineType e) (m_isActive e) False)")
  case True
  from updateLine_alive_straight [OF assms True] show ?thesis
    by (simp add: styleArgs_calls lineType_def)
next
  case False
  from updateLine_alive_angled [OF assms False] show ?thesis
    by (simp add: styleArgs_calls lineType_def)
qed

theorem updateLine_style_zValue_witness:
  "\<exists>e' c. updateLine exampleEnv exampleStore (edgeOf None DIRECTION_NONE) = Inr (e', []) \<and>
      m_child e' = Some c \<and> styleArgs (calls c) = [\<lparr>isStraight = True, zValue = 2\<rparr>] \<and>
      m_zValue e' = 2"
  using updateLine_style_zValue [OF example_alive example_childFits, of None DIRECTION_NONE]
  by (auto simp: example_oldCalls example_fields exampleEnv_def)

text \<open>
  Claim C6. The styling rules of \<open>updateLine\<close>. On a straight edge the arrow is shown
  exactly when the direction is not \<open>DIRECTION_NONE\<close>. On an angled edge the route is set,
  to \<open>ROUTE_HORIZONTAL\<close>, exactly when the type is neither \<open>EDGE_INHERITANCE\<close> nor
  \<open>EDGE_AGGREGATION\<close>; the pivot is set, to \<open>PIVOT_MIDDLE\<close>, exactly when the type is
  \<open>EDGE_AGGREGATION\<close>; the arrow of an \<open>EDGE_AGGREGATION\<close> edge is shown exactly when the
  direction is not \<open>DIRECTION_NONE\<close>, and that of every other type always.
\<close>

theorem updateLine_styling_rules:
  assumes "lock h (m_owner e) = Some owner" and "lock h (m_target e) = Some target"
    and "childFits env e"
  shows "\<exists>e' c new. updateLine env h e = Inr (e', []) \<and> m_child e' = Some c \<and>
           calls c = oldCalls e @ new \<and>
           (if isStraight (getStyleForEdgeType env (lineType e) (m_isActive e) False)
            then showArrowArgs new = [m_direction e \<noteq> DIRECTION_NONE]
            else (\<forall>r. SetRoute r \<in> set new \<longleftrightarrow>
                        r = ROUTE_HORIZONTAL \<and> lineType e \<noteq> EDGE_INHERITANCE \<and>
                        lineType e \<noteq> EDGE_AGGREGATION) \<and>
                 (\<forall>p. SetPivot p \<in> set new \<longleftrightarrow>
                        p = PIVOT_MIDDLE \<and> lineType e = EDGE_AGGREGATION) \<and>
                 showArrowArgs new =
                   [if lineType e = EDGE_AGGREGATION then m_direction e \<noteq> DIRECTION_NONE
                    else True])"
proof (cases "isStraight (getStyleForEdgeType env (lineType e) (m_isActive e) False)")
  case True
  from updateLine_alive_straight [OF assms True] True show ?thesis
    by (simp add: showArrowArgs_calls)
next
  case False
  from updateLine_alive_angled [OF assms False] False show ?thesis
    by (simp add: showArrowArgs_calls angledCalls_route angledCalls_pivot)
qed

theorem updateLine_styling_rules_witness:
  "(\<exists>e' c. updateLine exampleEnv exampleStore (edgeOf (Some callData) DIRECTION_NONE) =
       Inr (e', []) \<and> m_child e' = Some c \<and> SetRoute ROUTE_HORIZONTAL \<in> set (calls c) \<and>
       SetPivot PIVOT_MIDDLE \<notin> set (calls c) \<and> showArrowArgs (calls c) = [True]) \<and>
   (\<exists>e' c. updateLine exampleEnv exampleStore (edgeOf None DIRECTION_NONE) =
       Inr (e', []) \<and> m_child e' = Some c \<and> showArrowArgs (calls c) = [False])"
  using updateLine_styling_rules [OF example_alive example_childFits,
      of "Some callData" DIRECTION_NONE]
    updateLine_styling_rules [OF example_alive example_childFits, of None DIRECTION_NONE]
  by (auto simp: example_oldCalls example_straight example_lineType example_fields)

subsection \<open>The setters and the focus\<close>

lemma setIsActive_frame:
  assumes "setIsActive env h b e = Inr (e', out)"
  shows "m_isActive e' = b \<and> (\<forall>m. Dispatch m \<notin> set out)"
proof (cases "m_isActive e = b")
  case True
  with assms show ?thesis by (auto simp: setIsActive_def)
next
  case False
  with assms have "updateLine env h (e\<lparr>m_isActive := b\<rparr>) = Inr (e', out)"
    by (simp add: setIsActive_def)
  from updateLine_frame [OF this] show ?thesis by simp
qed

lemma setDirection_frame:
  assumes "setDirection env h d e = Inr (e', out)"
  shows "m_direction e' = d"
proof (cases "m_direction e = d")
  case True
  with assms show ?thesis by (auto simp: setDirection_def)
next
  case False
  with assms have "updateLine env h (e\<lparr>m_direction := d\<rparr>) = Inr (e', out)"
    by (simp add: setDirection_def)
  from updateLine_frame [OF this] show ?thesis by simp
qed

lemma setIsActive_same: "m_isActive e = b \<Longrightarrow> setIsActive env h b e = Inr (e, [])"
  by (simp add: setIsActive_def)

lemma setDirection_same: "m_direction e = d \<Longrightarrow> setDirection env h d e = Inr (e, [])"
  by (simp add: setDirection_def)

lemma setIsActive_twice:
  "andThen (setIsActive env h b e) (setIsActive env h b) = setIsActive env h b e"
proof (cases "setIsActive env h b e")
  case (Inl err)
  then show ?thesis by simp
next
  case (Inr r)
  obtain e' out where r: "r = (e', out)" by (cases r)
  with Inr have "m_isActive e' = b" using setIsActive_frame by blast
  then have "setIsActive env h b e' = Inr (e', [])" by (rule setIsActive_same)
  with Inr r show ?thesis by simp
qed

lemma setDirection_twice:
  "andThen (setDirection env h d e) (setDirection env h d) = setDirection env h d e"
proof (cases "setDirection env h d e")
  case (Inl err)
  then show ?thesis by simp
next
  case (Inr r)
  obtain e' out where r: "r = (e', out)" by (cases r)
  with Inr have "m_direction e' = d" using setDirection_frame by blast
  then have "setDirection env h d e' = Inr (e', [])" by (rule setDirection_same)
  with Inr r show ?thesis by simp
qed

text \<open>
  Claim C10. \<open>setIsActive\<close> called with the value \<open>getIsActive\<close> returns, and
  \<open>setDirection\<close> called with the stored direction, return the edge as it is, every field
  unchanged, and nothing is sent or redrawn (\<open>updateLine\<close>, the one redraw, is not run: the
  child has received no call). Both setters are idempotent: a second call with the same
  argument changes neither the edge nor what was sent by the first, also when the first
  call fails.
\<close>

theorem setters_noop_idempotent:
  "(getIsActive e = b \<longrightarrow> setIsActive env h b e = Inr (e, [])) \<and>
   (m_direction e = d \<longrightarrow> setDirection env h d e = Inr (e, [])) \<and>
   andThen (setIsActive env h b e) (setIsActive env h b) = setIsActive env h b e \<and>
   andThen (setDirection env h d e) (setDirection env h d) = setDirection env h d e"
  by (simp add: getIsActive_def setIsActive_same setDirection_same setIsActive_twice
      setDirection_twice)

theorem setters_noop_idempotent_witness:
  "setIsActive exampleEnv exampleStore False (edgeOf None DIRECTION_NONE) =
     Inr (edgeOf None DIRECTION_NONE, []) \<and>
   setDirection exampleEnv exampleStore DIRECTION_NONE (edgeOf None DIRECTION_NONE) =
     Inr (edgeOf None DIRECTION_NONE, [])"
  using setters_noop_idempotent [where e = "edgeOf None DIRECTION_NONE" and b = False
      and d = DIRECTION_NONE and env = exampleEnv and h = exampleStore]
  by (simp add: getIsActive_def edgeOf_def)

lemma focusIn_total:
  assumes "childFits env (e\<lparr>m_isActive := True\<rparr>)"
  shows "\<exists>e' out. focusIn env h e = Inr (e', out)"
proof (cases "m_isActive e")
  case True
  then show ?thesis by (simp add: focusIn_def setIsActive_def)
next
  case False
  from updateLine_total [OF assms, of h] obtain e1 out1
    where "updateLine env h (e\<lparr>m_isActive := True\<rparr>) = Inr (e1, out1)" by blast
  with False show ?thesis by (simp add: focusIn_def setIsActive_def)
qed

lemma focusIn_no_message:
  assumes "focusIn env h e = Inr (e', out)"
  shows "Dispatch m \<notin> set out"
proof (cases "setIsActive env h True e")
  case (Inl err)
  with assms show ?thesis by (simp add: focusIn_def)
next
  case (Inr r)
  obtain e1 out1 where r: "r = (e1, out1)" by (cases r)
  with Inr assms have "out = out1" by (auto simp: focusIn_def)
  with Inr r setIsActive_frame [of env h True e e1 out1] show ?thesis by simp
qed

lemma focusIn_isActive:
  assumes "focusIn env h e = Inr (e', out)"
  shows "m_isActive e' = m_isActive e"
  using assms
  by (cases "setIsActive env h True e") (auto simp: focusIn_def Let_def)

text \<open>
  Claim C9. In every state, after \<open>focusIn\<close> the value of \<open>getIsActive\<close> is the one before
  the call. \<open>focusIn\<close> returns whenever the child fits the style of the active edge. On an
  edge that is not active, \<open>focusIn\<close> is \<open>updateLine\<close> of the edge with the flag set, and
  the flag cleared afterwards.
\<close>

theorem focusIn_preserves_isActive:
  "(\<forall>e' out. focusIn env h e = Inr (e', out) \<longrightarrow> getIsActive e' = getIsActive e) \<and>
   (childFits env (e\<lparr>m_isActive := True\<rparr>) \<longrightarrow> (\<exists>e' out. focusIn env h e = Inr (e', out))) \<and>
   (\<not> getIsActive e \<longrightarrow>
      focusIn env h e =
        andThen (updateLine env h (e\<lparr>m_isActive := True\<rparr>))
          (\<lambda>e'. Inr (e'\<lparr>m_isActive := False\<rparr>, [])))"
proof (intro conjI impI allI)
  fix e' out
  assume "focusIn env h e = Inr (e', out)"
  then show "getIsActive e' = getIsActive e"
    unfolding getIsActive_def by (rule focusIn_isActive)
next
  assume "childFits env (e\<lparr>m_isActive := True\<rparr>)"
  then show "\<exists>e' out. focusIn env h e = Inr (e', out)"
    by (rule focusIn_total)
next
  assume "\<not> getIsActive e"
  then show "focusIn env h e =
        andThen (updateLine env h (e\<lparr>m_isActive := True\<rparr>))
          (\<lambda>e'. Inr (e'\<lparr>m_isActive := False\<rparr>, []))"
    by (simp add: focusIn_def setIsActive_def getIsActive_def)
qed

theorem focusIn_preserves_isActive_witness:
  "\<exists>e' out. focusIn exampleEnv exampleStore (edgeOf None DIRECTION_NONE) = Inr (e', out) \<and>
     getIsActive e' = False \<and>
     andThen (updateLine exampleEnv exampleStore ((edgeOf None DIRECTION_NONE)\<lparr>m_isActive := True\<rparr>))
       (\<lambda>e'. Inr (e'\<lparr>m_isActive := False\<rparr>, [])) = Inr (e', out)"
proof -
  have fits: "childFits exampleEnv ((edgeOf None DIRECTION_NONE)\<lparr>m_isActive := True\<rparr>)"
    by (simp add: childFits_def edgeOf_def)
  have inactive: "\<not> getIsActive (edgeOf None DIRECTION_NONE)"
    by (simp add: getIsActive_def edgeOf_def)
  note t = focusIn_preserves_isActive [where env = exampleEnv and h = exampleStore
      and e = "edgeOf None DIRECTION_NONE"]
  from t fits obtain e' out
    where r: "focusIn exampleEnv exampleStore (edgeOf None DIRECTION_NONE) = Inr (e', out)"
    by blast
  from t r inactive have "getIsActive e' = False"
    by simp
  moreover from t inactive r
  have "andThen (updateLine exampleEnv exampleStore
                   ((edgeOf None DIRECTION_NONE)\<lparr>m_isActive := True\<rparr>))
          (\<lambda>e'. Inr (e'\<lparr>m_isActive := False\<rparr>, [])) = Inr (e', out)"
    by simp
  ultimately show ?thesis using r by blast
qed

subsection \<open>Clicks\<close>

text \<open>
  Claim C1, amended. A click on an edge with data dispatches exactly one message,
  \<open>MessageActivateEdge\<close> with the id, the type and the two name hierarchies of the data,
  and with the aggregation ids when the type is \<open>EDGE_AGGREGATION\<close> and the data has the
  aggregation component. A click on an edge without data dispatches exactly one message
  when the node of the bundle is alive: \<open>MessageGraphNodeBundleSplit\<close> with the token id of
  the target node, or of the owner node for the direction \<open>DIRECTION_BACKWARD\<close>. The edge
  stays as it is.
\<close>

theorem onClick_dispatches_one:
  "(\<forall>d. getData e = Some d \<and> getType d \<noteq> EDGE_AGGREGATION \<longrightarrow>
      onClick h e =
        Inr (e, [Dispatch (MessageActivateEdge (getId d) (getType d)
                   (getFromNameHierarchy d) (getToNameHierarchy d) [])])) \<and>
   (\<forall>d ids. getData e = Some d \<and> getType d = EDGE_AGGREGATION \<and>
            getAggregationComponent d = Some ids \<longrightarrow>
      onClick h e =
        Inr (e, [Dispatch (MessageActivateEdge (getId d) (getType d)
                   (getFromNameHierarchy d) (getToNameHierarchy d) ids)])) \<and>
   (\<forall>n. getData e = None \<and> m_direction e \<noteq> DIRECTION_BACKWARD \<and>
        lock h (m_target e) = Some n \<longrightarrow>
      onClick h e = Inr (e, [Dispatch (MessageGraphNodeBundleSplit (getTokenId n))])) \<and>
   (\<forall>n. getData e = None \<and> m_direction e = DIRECTION_BACKWARD \<and>
        lock h (m_owner e) = Some n \<longrightarrow>
      onClick h e = Inr (e, [Dispatch (MessageGraphNodeBundleSplit (getTokenId n))]))"
  by (simp add: onClick_def)

theorem onClick_dispatches_one_witness:
  "onClick exampleStore (edgeOf (Some callData) DIRECTION_NONE) =
     Inr (edgeOf (Some callData) DIRECTION_NONE,
          [Dispatch (MessageActivateEdge 5 (EDGE_OTHER 0) [''A'', ''f''] [''B'', ''g''] [])]) \<and>
   onClick exampleStore (edgeOf (Some aggregationData) DIRECTION_NONE) =
     Inr (edgeOf (Some aggregationData) DIRECTION_NONE,
          [Dispatch (MessageActivateEdge 6 EDGE_AGGREGATION [''A''] [''B''] [5, 9])]) \<and>
   onClick exampleStore (edgeOf None DIRECTION_NONE) =
     Inr (edgeOf None DIRECTION_NONE, [Dispatch (MessageGraphNodeBundleSplit 12)]) \<and>
   onClick exampleStore (edgeOf None DIRECTION_BACKWARD) =
     Inr (edgeOf None DIRECTION_BACKWARD, [Dispatch (MessageGraphNodeBundleSplit 11)])"
  using onClick_dispatches_one [where h = exampleStore
      and e = "edgeOf (Some callData) DIRECTION_NONE"]
    onClick_dispatches_one [where h = exampleStore
      and e = "edgeOf (Some aggregationData) DIRECTION_NONE"]
    onClick_dispatches_one [where h = exampleStore and e = "edgeOf None DIRECTION_NONE"]
    onClick_dispatches_one [where h = exampleStore and e = "edgeOf None DIRECTION_BACKWARD"]
  by (simp add: getData_def edgeOf_def callData_def aggregationData_def lock_def
      exampleStore_def nodeA_def nodeB_def)

text \<open>
  Claim C1 as stated, for every click, fails: a click on an edge without data whose
  target node has expired dispatches no message; the null pointer is dereferenced.
\<close>

theorem onClick_expired_counterexample:
  "onClick exampleStore ((edgeOf None DIRECTION_NONE)\<lparr>m_target := 3\<rparr>) = Inl NullDereference"
  by (simp add: onClick_def getData_def edgeOf_def lock_def exampleStore_def)

subsection \<open>Hover events\<close>

lemma oldCalls_isActive [simp]: "oldCalls (e\<lparr>m_isActive := b\<rparr>) = oldCalls e"
  by (simp add: oldCalls_def)

lemma updateLine_redraws:
  assumes "lock h (m_owner e) = Some owner" and "lock h (m_target e) = Some target"
    and "childFits env e"
  shows "\<exists>e' c new. updateLine env h e = Inr (e', []) \<and> m_child e' = Some c \<and>
           calls c = oldCalls e @ new \<and> length (updateLineCalls new) = 1 \<and>
           styleArgs new = [getStyleForEdgeType env (lineType e) (m_isActive e) False] \<and>
           m_isActive e' = m_isActive e \<and>
           m_zValue e' = zValue (getStyleForEdgeType env (lineType e) (m_isActive e) False)"
proof (cases "isStraight (getStyleForEdgeType env (lineType e) (m_isActive e) False)")
  case True
  from updateLine_alive_straight [OF assms True] show ?thesis
    by (simp add: styleArgs_calls updateLineCalls_straight)
next
  case False
  from updateLine_alive_angled [OF assms False] show ?thesis
    by (simp add: styleArgs_calls updateLineCalls_angled)
qed

lemma focusIn_active: "m_isActive e \<Longrightarrow> focusIn env h e = Inr (e, [])"
  by (simp add: focusIn_def setIsActive_def)

lemma focusIn_inactive:
  "\<not> m_isActive e \<Longrightarrow>
   focusIn env h e =
     andThen (updateLine env h (e\<lparr>m_isActive := True\<rparr>))
       (\<lambda>e'. Inr (e'\<lparr>m_isActive := False\<rparr>, []))"
  by (simp add: focusIn_def setIsActive_def)

lemma focusIn_redraws:
  assumes "lock h (m_owner e) = Some owner" and "lock h (m_target e) = Some target"
    and "\<not> m_isActive e" and "childFits env (e\<lparr>m_isActive := True\<rparr>)"
  shows "\<exists>e' c new. focusIn env h e = Inr (e', []) \<and> m_child e' = Some c \<and>
           calls c = oldCalls e @ new \<and> length (updateLineCalls new) = 1 \<and>
           styleArgs new = [getStyleForEdgeType env (lineType e) True False] \<and>
           m_isActive e' = False"
proof -
  from assms(1,2) have alive: "lock h (m_owner (e\<lparr>m_isActive := True\<rparr>)) = Some owner"
    "lock h (m_target (e\<lparr>m_isActive := True\<rparr>)) = Some target"
    by simp_all
  from updateLine_redraws [OF alive assms(4)] obtain e1 c new
    where r: "updateLine env h (e\<lparr>m_isActive := True\<rparr>) = Inr (e1, [])"
      "m_child e1 = Some c" "calls c = oldCalls e @ new" "length (updateLineCalls new) = 1"
      "styleArgs new = [getStyleForEdgeType env (lineType e) True False]"
    by auto
  have "focusIn env h e = Inr (e1\<lparr>m_isActive := False\<rparr>, [])"
    by (simp add: focusIn_inactive [OF assms(3)] r(1))
  with r show ?thesis by simp
qed

text \<open>
  Claim C4, amended. On an edge with data, a hover-enter event dispatches exactly
  \<open>MessageFocusIn\<close> with the one-element list of the id of the data, a hover-leave event
  exactly \<open>MessageFocusOut\<close> with the same list, and the edge stays as it is. On an edge
  without data the events are \<open>focusIn\<close> and \<open>focusOut\<close> and dispatch no message. The
  hover-leave event is \<open>updateLine\<close>: with both nodes alive the line item receives one
  \<^verbatim>\<open>updateLine\<close> call with the style of \<open>EDGE_AGGREGATION\<close> for the activity of the edge.
  The hover-enter event on an edge that is not active is \<open>updateLine\<close> of the edge with
  the flag set, and the flag cleared afterwards: with both nodes alive the line item
  receives one \<^verbatim>\<open>updateLine\<close> call with the style of the active \<open>EDGE_AGGREGATION\<close>
  edge. The hover-enter event on an edge that is active already changes nothing and
  redraws nothing.
\<close>

theorem hover_events:
  "(\<forall>d. getData e = Some d \<longrightarrow>
      hoverEnterEvent env h e = Inr (e, [Dispatch (MessageFocusIn [getId d])]) \<and>
      hoverLeaveEvent env h e = Inr (e, [Dispatch (MessageFocusOut [getId d])])) \<and>
   (getData e = None \<longrightarrow>
      hoverEnterEvent env h e = focusIn env h e \<and>
      hoverLeaveEvent env h e = focusOut env h e \<and>
      (\<forall>e' out m. hoverEnterEvent env h e = Inr (e', out) \<longrightarrow> Dispatch m \<notin> set out) \<and>
      (\<forall>e' out m. hoverLeaveEvent env h e = Inr (e', out) \<longrightarrow> Dispatch m \<notin> set out) \<and>
      hoverLeaveEvent env h e = updateLine env h e \<and>
      (getIsActive e \<longrightarrow> hoverEnterEvent env h e = Inr (e, [])) \<and>
      (\<not> getIsActive e \<longrightarrow>
         hoverEnterEvent env h e =
           andThen (updateLine env h (e\<lparr>m_isActive := True\<rparr>))
             (\<lambda>e'. Inr (e'\<lparr>m_isActive := False\<rparr>, []))) \<and>
      (\<forall>owner target.
         lock h (m_owner e) = Some owner \<and> lock h (m_target e) = Some target \<and>
         childFits env e \<longrightarrow>
         (\<exists>e' c new. hoverLeaveEvent env h e = Inr (e', []) \<and> m_child e' = Some c \<and>
            calls c = oldCalls e @ new \<and> length (updateLineCalls new) = 1 \<and>
            styleArgs new = [getStyleForEdgeType env EDGE_AGGREGATION (getIsActive e) False] \<and>
            getIsActive e' = getIsActive e)) \<and>
      (\<forall>owner target.
         lock h (m_owner e) = Some owner \<and> lock h (m_target e) = Some target \<and>
         \<not> getIsActive e \<and> childFits env (e\<lparr>m_isActive := True\<rparr>) \<longrightarrow>
         (\<exists>e' c new. hoverEnterEvent env h e = Inr (e', []) \<and> m_child e' = Some c \<and>
            calls c = oldCalls e @ new \<and> length (updateLineCalls new) = 1 \<and>
            styleArgs new = [getStyleForEdgeType env EDGE_AGGREGATION True False] \<and>
            getIsActive e' = False)))"
proof (intro conjI impI allI)
  fix d
  assume "getData e = Some d"
  then show "hoverEnterEvent env h e = Inr (e, [Dispatch (MessageFocusIn [getId d])])"
    and "hoverLeaveEvent env h e = Inr (e, [Dispatch (MessageFocusOut [getId d])])"
    by (simp_all add: hoverEnterEvent_def hoverLeaveEvent_def)
next
  assume none: "getData e = None"
  then have ty: "lineType e = EDGE_AGGREGATION"
    by (simp add: lineType_def)
  from none show enter: "hoverEnterEvent env h e = focusIn env h e"
    and leave: "hoverLeaveEvent env h e = focusOut env h e"
    and leave': "hoverLeaveEvent env h e = updateLine env h e"
    by (simp_all add: hoverEnterEvent_def hoverLeaveEvent_def focusOut_def)
  {
    fix e' out m
    assume "hoverEnterEvent env h e = Inr (e', out)"
    with enter have "focusIn env h e = Inr (e', out)" by simp
    then show "Dispatch m \<notin> set out"
      by (rule focusIn_no_message)
  }
  {
    fix e' out m
    assume "hoverLeaveEvent env h e = Inr (e', out)"
    with leave' show "Dispatch m \<notin> set out"
      using updateLine_frame [of env h e e' out] by simp
  }
  {
    assume "getIsActive e"
    then show "hoverEnterEvent env h e = Inr (e, [])"
      by (simp add: enter focusIn_active getIsActive_def)
  }
  {
    assume "\<not> getIsActive e"
    then show "hoverEnterEvent env h e =
           andThen (updateLine env h (e\<lparr>m_isActive := True\<rparr>))
             (\<lambda>e'. Inr (e'\<lparr>m_isActive := False\<rparr>, []))"
      by (simp add: enter focusIn_inactive getIsActive_def)
  }
  {
    fix owner target
    assume a: "lock h (m_owner e) = Some owner \<and> lock h (m_target e) = Some target \<and>
         childFits env e"
    then have "lock h (m_owner e) = Some owner" "lock h (m_target e) = Some target"
      "childFits env e" by simp_all
    from updateLine_redraws [OF this]
    show "\<exists>e' c new. hoverLeaveEvent env h e = Inr (e', []) \<and> m_child e' = Some c \<and>
            calls c = oldCalls e @ new \<and> length (updateLineCalls new) = 1 \<and>
            styleArgs new = [getStyleForEdgeType env EDGE_AGGREGATION (getIsActive e) False] \<and>
            getIsActive e' = getIsActive e"
      by (fastforce simp: leave' ty getIsActive_def)
  }
  {
    fix owner target
    assume a: "lock h (m_owner e) = Some owner \<and> lock h (m_target e) = Some target \<and>
         \<not> getIsActive e \<and> childFits env (e\<lparr>m_isActive := True\<rparr>)"
    then have "lock h (m_owner e) = Some owner" "lock h (m_target e) = Some target"
      "\<not> m_isActive e" "childFits env (e\<lparr>m_isActive := True\<rparr>)"
      by (simp_all add: getIsActive_def)
    from focusIn_redraws [OF this]
    show "\<exists>e' c new. hoverEnterEvent env h e = Inr (e', []) \<and> m_child e' = Some c \<and>
            calls c = oldCalls e @ new \<and> length (updateLineCalls new) = 1 \<and>
            styleArgs new = [getStyleForEdgeType env EDGE_AGGREGATION True False] \<and>
            getIsActive e' = False"
      by (fastforce simp: enter ty getIsActive_def)
  }
qed


theorem hover_events_witness:
  "hoverEnterEvent exampleEnv exampleStore (edgeOf (Some callData) DIRECTION_NONE) =
     Inr (edgeOf (Some callData) DIRECTION_NONE, [Dispatch (MessageFocusIn [5])]) \<and>
   hoverLeaveEvent exampleEnv exampleStore (edgeOf (Some callData) DIRECTION_NONE) =
     Inr (edgeOf (Some callData) DIRECTION_NONE, [Dispatch (MessageFocusOut [5])]) \<and>
   (\<exists>e' c. hoverLeaveEvent exampleEnv exampleStore (edgeOf None DIRECTION_NONE) =
      Inr (e', []) \<and> m_child e' = Some c \<and>
      styleArgs (calls c) = [\<lparr>isStraight = True, zValue = 2\<rparr>] \<and> getIsActive e' = False) \<and>
   (\<exists>e' c. hoverEnterEvent exampleEnv exampleStore (edgeOf None DIRECTION_NONE) =
      Inr (e', []) \<and> m_child e' = Some c \<and>
      styleArgs (calls c) = [\<lparr>isStraight = True, zValue = 5\<rparr>] \<and> getIsActive e' = False) \<and>
   hoverEnterEvent exampleEnv exampleStore ((edgeOf None DIRECTION_NONE)\<lparr>m_isActive := True\<rparr>) =
     Inr ((edgeOf None DIRECTION_NONE)\<lparr>m_isActive := True\<rparr>, [])"
proof -
  have data: "getData (edgeOf (Some callData) DIRECTION_NONE) = Some callData"
    and nodata: "getData (edgeOf None DIRECTION_NONE) = None"
    and nodata': "getData ((edgeOf None DIRECTION_NONE)\<lparr>m_isActive := True\<rparr>) = None"
    by (simp_all add: getData_def edgeOf_def)
  have inactive: "\<not> getIsActive (edgeOf None DIRECTION_NONE)"
    and active: "getIsActive ((edgeOf None DIRECTION_NONE)\<lparr>m_isActive := True\<rparr>)"
    by (simp_all add: getIsActive_def edgeOf_def)
  have fits: "childFits exampleEnv ((edgeOf None DIRECTION_NONE)\<lparr>m_isActive := True\<rparr>)"
    by (simp add: childFits_def edgeOf_def)
  note alive = example_alive [of None DIRECTION_NONE]
  note old = example_oldCalls [of None DIRECTION_NONE]
  from hover_events [where e = "edgeOf (Some callData) DIRECTION_NONE" and env = exampleEnv
      and h = exampleStore] data
  have a: "hoverEnterEvent exampleEnv exampleStore (edgeOf (Some callData) DIRECTION_NONE) =
     Inr (edgeOf (Some callData) DIRECTION_NONE, [Dispatch (MessageFocusIn [5])]) \<and>
   hoverLeaveEvent exampleEnv exampleStore (edgeOf (Some callData) DIRECTION_NONE) =
     Inr (edgeOf (Some callData) DIRECTION_NONE, [Dispatch (MessageFocusOut [5])])"
    by (simp add: callData_def)
  note t = hover_events [where e = "edgeOf None DIRECTION_NONE" and env = exampleEnv
      and h = exampleStore]
  from t nodata alive example_childFits [of None DIRECTION_NONE]
  have "\<exists>e' c new. hoverLeaveEvent exampleEnv exampleStore (edgeOf None DIRECTION_NONE) =
      Inr (e', []) \<and> m_child e' = Some c \<and>
      calls c = oldCalls (edgeOf None DIRECTION_NONE) @ new \<and>
      length (updateLineCalls new) = 1 \<and>
      styleArgs new = [getStyleForEdgeType exampleEnv EDGE_AGGREGATION
                         (getIsActive (edgeOf None DIRECTION_NONE)) False] \<and>
      getIsActive e' = getIsActive (edgeOf None DIRECTION_NONE)"
    by blast
  with inactive
  have b: "\<exists>e' c. hoverLeaveEvent exampleEnv exampleStore (edgeOf None DIRECTION_NONE) =
      Inr (e', []) \<and> m_child e' = Some c \<and>
      styleArgs (calls c) = [\<lparr>isStraight = True, zValue = 2\<rparr>] \<and> getIsActive e' = False"
    by (auto simp: old exampleEnv_def)
  from t nodata alive inactive fits
  have "\<exists>e' c new. hoverEnterEvent exampleEnv exampleStore (edgeOf None DIRECTION_NONE) =
      Inr (e', []) \<and> m_child e' = Some c \<and>
      calls c = oldCalls (edgeOf None DIRECTION_NONE) @ new \<and>
      length (updateLineCalls new) = 1 \<and>
      styleArgs new = [getStyleForEdgeType exampleEnv EDGE_AGGREGATION True False] \<and>
      getIsActive e' = False"
    by blast
  then
  have c: "\<exists>e' c. hoverEnterEvent exampleEnv exampleStore (edgeOf None DIRECTION_NONE) =
      Inr (e', []) \<and> m_child e' = Some c \<and>
      styleArgs (calls c) = [\<lparr>isStraight = True, zValue = 5\<rparr>] \<and> getIsActive e' = False"
    by (auto simp: old exampleEnv_def)
  from hover_events [where e = "(edgeOf None DIRECTION_NONE)\<lparr>m_isActive := True\<rparr>"
      and env = exampleEnv and h = exampleStore] nodata' active
  have d: "hoverEnterEvent exampleEnv exampleStore
        ((edgeOf None DIRECTION_NONE)\<lparr>m_isActive := True\<rparr>) =
     Inr ((edgeOf None DIRECTION_NONE)\<lparr>m_isActive := True\<rparr>, [])"
    by blast
  from a b c d show ?thesis by blast
qed

text \<open>
  Claim C4 as stated, the edge without data redraws itself on every hover-enter event,
  fails on an edge that is active: both nodes are alive, and after the event the edge is
  as before, still without a line item.
\<close>

theorem hover_enter_active_counterexample:
  "getData ((edgeOf None DIRECTION_NONE)\<lparr>m_isActive := True\<rparr>) = None \<and>
   m_child ((edgeOf None DIRECTION_NONE)\<lparr>m_isActive := True\<rparr>) = None \<and>
   hoverEnterEvent exampleEnv exampleStore ((edgeOf None DIRECTION_NONE)\<lparr>m_isActive := True\<rparr>) =
     Inr ((edgeOf None DIRECTION_NONE)\<lparr>m_isActive := True\<rparr>, [])"
  by (simp add: hoverEnterEvent_def focusIn_def setIsActive_def getData_def edgeOf_def)

subsection \<open>Mouse events\<close>

lemma andThen_Inr_nil: "andThen (Inr (a, [])) f = f a"
  by (simp split: sum.splits prod.splits)

lemma checked_inInt: "inInt i \<Longrightarrow> checked i = Inr i"
  by (simp add: checked_def)

lemma Vec2i_inRange:
  "positionInRange p \<Longrightarrow> Vec2i (fst p) (snd p) = Inr (truncated p)"
  by (simp add: positionInRange_def Vec2i_def toInt_def checked_inInt truncated_def)

lemma mousePressEvent_inRange:
  "positionInRange p \<Longrightarrow>
   mousePressEvent p e = Inr (e\<lparr>m_mousePos := truncated p, m_mouseMoved := False\<rparr>, [])"
  by (simp add: mousePressEvent_def Vec2i_inRange)

lemma mouseMoveEvent_inRange:
  assumes "moveInRange p q" and "m_mousePos s = truncated p"
  shows "mouseMoveEvent q s =
           Inr (if 1 < truncatedDistance p q then s\<lparr>m_mouseMoved := True\<rparr> else s, [])"
proof -
  from assms(1) have pos: "Vec2i (fst q) (snd q) = Inr (truncated q)"
    by (simp add: moveInRange_def Vec2i_inRange)
  from assms(1) have diff: "minusVec (truncated q) (truncated p) =
      Inr (truncateReal (fst q) - truncateReal (fst p), truncateReal (snd q) - truncateReal (snd p))"
    by (simp add: moveInRange_def minusVec_def truncated_def checked_inInt)
  from assms(1) have len:
    "getLength (truncateReal (fst q) - truncateReal (fst p), truncateReal (snd q) - truncateReal (snd p)) =
       Inr (truncatedDistance p q)"
    by (simp add: moveInRange_def getLength_def checked_inInt truncatedDistance_def
        power2_eq_square)
  show ?thesis
    by (simp add: mouseMoveEvent_def pos assms(2) diff len)
qed

lemma moves_fold:
  assumes "list_all (moveInRange p) qs" and "m_mousePos s = truncated p"
  shows "foldl (\<lambda>r q. andThen r (mouseMoveEvent q)) (Inr (s, [])) qs =
           Inr (if someMoveFar p qs then s\<lparr>m_mouseMoved := True\<rparr> else s, [])"
  using assms
proof (induction qs arbitrary: s)
  case Nil
  then show ?case by (simp add: someMoveFar_def)
next
  case (Cons q qs)
  then have q: "moveInRange p q" and qs: "list_all (moveInRange p) qs"
    by simp_all
  show ?case
  proof (cases "1 < truncatedDistance p q")
    case True
    have "foldl (\<lambda>r q. andThen r (mouseMoveEvent q)) (Inr (s\<lparr>m_mouseMoved := True\<rparr>, [])) qs =
          Inr (if someMoveFar p qs then s\<lparr>m_mouseMoved := True, m_mouseMoved := True\<rparr>
               else s\<lparr>m_mouseMoved := True\<rparr>, [])"
      using Cons.IH [OF qs, of "s\<lparr>m_mouseMoved := True\<rparr>"] Cons.prems(2) by simp
    with True show ?thesis
      by (simp add: andThen_Inr_nil mouseMoveEvent_inRange [OF q Cons.prems(2)]
          someMoveFar_def)
  next
    case False
    with Cons.IH [OF qs Cons.prems(2)] show ?thesis
      by (simp add: andThen_Inr_nil mouseMoveEvent_inRange [OF q Cons.prems(2)]
          someMoveFar_def)
  qed
qed

lemma mouseReleaseEvent_flag:
  "mouseReleaseEvent h s = (if m_mouseMoved s then Inr (s, []) else onClick h s)"
  by (simp add: mouseReleaseEvent_def)

lemma pressAndMove_inRange:
  assumes "allMovesInRange p qs"
  shows "pressAndMove p qs e =
      Inr (if someMoveFar p qs
           then e\<lparr>m_mousePos := truncated p, m_mouseMoved := True\<rparr>
           else e\<lparr>m_mousePos := truncated p, m_mouseMoved := False\<rparr>, [])"
proof -
  from assms have p: "positionInRange p" and qs: "list_all (moveInRange p) qs"
    by (simp_all add: allMovesInRange_def)
  have "pressAndMove p qs e =
      Inr (if someMoveFar p qs
           then e\<lparr>m_mousePos := truncated p, m_mouseMoved := False, m_mouseMoved := True\<rparr>
           else e\<lparr>m_mousePos := truncated p, m_mouseMoved := False\<rparr>, [])"
    unfolding pressAndMove_def mousePressEvent_inRange [OF p]
    by (rule moves_fold [OF qs]) simp
  then show ?thesis by simp
qed

text \<open>
  Claim C7, amended. As long as the \<^verbatim>\<open>int\<close> arithmetic stays in range (the positions in
  integer coordinates, the differences of the coordinates of each move from those of the
  press, their squares and the sum of the squares), a release after a press and any
  moves is \<open>onClick\<close> exactly when no move was to a position that, in integer coordinates,
  is farther than 1 from the press position in integer coordinates; otherwise the release
  does nothing. \<open>mousePressEvent\<close> records the position cut to integer coordinates and clears
  the moved flag, \<open>mouseMoveEvent\<close> sets the flag for such a move, \<open>mouseReleaseEvent\<close>
  calls \<open>onClick\<close> exactly when the flag is clear.
\<close>

theorem release_clicks_unless_moved:
  assumes "allMovesInRange p qs"
  shows "pressMoveRelease h p qs e =
     (if someMoveFar p qs
      then Inr (e\<lparr>m_mousePos := truncated p, m_mouseMoved := True\<rparr>, [])
      else onClick h (e\<lparr>m_mousePos := truncated p, m_mouseMoved := False\<rparr>))"
  by (simp add: pressMoveRelease_def pressAndMove_inRange [OF assms] andThen_Inr_nil
      mouseReleaseEvent_flag del: andThen_Inr)

lemma truncate_simps:
  "truncateReal 0 = 0" "truncateReal 1 = 1" "truncateReal 3 = 3" "truncateReal 4 = 4"
  "truncateReal (3 / 2) = 1" "truncateReal (1 / 2) = 0"
  by (simp_all add: truncateReal_def)

lemma inInt_small: "- 100 \<le> i \<Longrightarrow> i \<le> 100 \<Longrightarrow> inInt i"
  by (simp add: inInt_def INT_MIN_def INT_MAX_def)

theorem release_clicks_unless_moved_witness:
  "allMovesInRange (0, 0) [(1, 0), (3, 4)] \<and>
   pressMoveRelease exampleStore (0, 0) [(1, 0), (3, 4)] (edgeOf None DIRECTION_NONE) =
     Inr ((edgeOf None DIRECTION_NONE)\<lparr>m_mouseMoved := True\<rparr>, []) \<and>
   allMovesInRange (0, 0) [(1, 0)] \<and>
   pressMoveRelease exampleStore (0, 0) [(1, 0)] (edgeOf None DIRECTION_NONE) =
     Inr (edgeOf None DIRECTION_NONE, [Dispatch (MessageGraphNodeBundleSplit 12)])"
proof -
  have a: "allMovesInRange (0, 0) [(1, 0), (3, 4)]"
    and b: "allMovesInRange (0, 0) [(1, 0)]"
    by (simp_all add: allMovesInRange_def positionInRange_def moveInRange_def truncate_simps
        inInt_small)
  have far: "someMoveFar (0, 0) [(1, 0), (3, 4)]"
    and near: "\<not> someMoveFar (0, 0) [(1, 0)]"
    by (simp_all add: someMoveFar_def truncatedDistance_def truncate_simps)
  have same: "(edgeOf None DIRECTION_NONE)\<lparr>m_mousePos := truncated (0, 0), m_mouseMoved := False\<rparr> =
      edgeOf None DIRECTION_NONE"
    by (simp add: edgeOf_def truncated_def truncate_simps)
  have click: "onClick exampleStore (edgeOf None DIRECTION_NONE) =
      Inr (edgeOf None DIRECTION_NONE, [Dispatch (MessageGraphNodeBundleSplit 12)])"
    by (simp add: onClick_def getData_def edgeOf_def lock_def exampleStore_def nodeB_def)
  from release_clicks_unless_moved [OF a, of exampleStore "edgeOf None DIRECTION_NONE"] far
  have "pressMoveRelease exampleStore (0, 0) [(1, 0), (3, 4)] (edgeOf None DIRECTION_NONE) =
     Inr ((edgeOf None DIRECTION_NONE)\<lparr>m_mouseMoved := True\<rparr>, [])"
    by (simp add: edgeOf_def truncated_def truncate_simps)
  moreover
  from release_clicks_unless_moved [OF b, of exampleStore "edgeOf None DIRECTION_NONE"] near
  have "pressMoveRelease exampleStore (0, 0) [(1, 0)] (edgeOf None DIRECTION_NONE) =
     Inr (edgeOf None DIRECTION_NONE, [Dispatch (MessageGraphNodeBundleSplit 12)])"
    by (simp add: same click)
  ultimately show ?thesis using a b by simp
qed

text \<open>
  Claim C7 as stated, with the distance between the positions of the events, fails in both
  directions. A move by 1.5 from the press position is not counted as a move, and the
  release clicks: in integer coordinates the move is from \<open>(0, 0)\<close> to \<open>(1, 0)\<close>. A move by
  less than 1, from \<open>(0.5, 0.5)\<close> to \<open>(1, 1)\<close>, is counted as a move, and the release does
  not click: in integer coordinates the move is from \<open>(0, 0)\<close> to \<open>(1, 1)\<close>.
\<close>

theorem release_truncation_counterexample:
  "1 < sceneDistance (0, 0) (3 / 2, 0) \<and>
   pressMoveRelease exampleStore (0, 0) [(3 / 2, 0)] (edgeOf None DIRECTION_NONE) =
     Inr (edgeOf None DIRECTION_NONE, [Dispatch (MessageGraphNodeBundleSplit 12)]) \<and>
   sceneDistance (1 / 2, 1 / 2) (1, 1) < 1 \<and>
   pressMoveRelease exampleStore (1 / 2, 1 / 2) [(1, 1)] (edgeOf None DIRECTION_NONE) =
     Inr ((edgeOf None DIRECTION_NONE)\<lparr>m_mouseMoved := True\<rparr>, [])"
proof -
  have a: "allMovesInRange (0, 0) [(3 / 2, 0)]"
    and b: "allMovesInRange (1 / 2, 1 / 2) [(1, 1)]"
    by (simp_all add: allMovesInRange_def positionInRange_def moveInRange_def truncate_simps
        inInt_small)
  have near: "\<not> someMoveFar (0, 0) [(3 / 2, 0)]"
    and far: "someMoveFar (1 / 2, 1 / 2) [(1, 1)]"
    by (simp_all add: someMoveFar_def truncatedDistance_def truncate_simps)
  have same: "(edgeOf None DIRECTION_NONE)\<lparr>m_mousePos := truncated (0, 0), m_mouseMoved := False\<rparr> =
      edgeOf None DIRECTION_NONE"
    by (simp add: edgeOf_def truncated_def truncate_simps)
  have click: "onClick exampleStore (edgeOf None DIRECTION_NONE) =
      Inr (edgeOf None DIRECTION_NONE, [Dispatch (MessageGraphNodeBundleSplit 12)])"
    by (simp add: onClick_def getData_def edgeOf_def lock_def exampleStore_def nodeB_def)
  have flag: "\<not> m_mouseMoved (edgeOf None DIRECTION_NONE)"
    by (simp add: edgeOf_def)
  have d1: "1 < sceneDistance (0, 0) (3 / 2, 0)"
    and d2: "sceneDistance (1 / 2, 1 / 2) (1, 1) < 1"
    by (simp_all add: sceneDistance_def power2_eq_square)
  have same': "(edgeOf None DIRECTION_NONE)\<lparr>m_mousePos := truncated (1 / 2, 1 / 2), m_mouseMoved := True\<rparr> =
      (edgeOf None DIRECTION_NONE)\<lparr>m_mouseMoved := True\<rparr>"
    by (simp add: edgeOf_def truncated_def truncate_simps)
  have "pressMoveRelease exampleStore (0, 0) [(3 / 2, 0)] (edgeOf None DIRECTION_NONE) =
     Inr (edgeOf None DIRECTION_NONE, [Dispatch (MessageGraphNodeBundleSplit 12)])"
    using near
    by (simp add: pressMoveRelease_def pressAndMove_inRange [OF a] andThen_Inr_nil
        mouseReleaseEvent_flag same click flag del: andThen_Inr)
  moreover
  have "pressMoveRelease exampleStore (1 / 2, 1 / 2) [(1, 1)] (edgeOf None DIRECTION_NONE) =
     Inr ((edgeOf None DIRECTION_NONE)\<lparr>m_mouseMoved := True\<rparr>, [])"
    using far
    by (simp add: pressMoveRelease_def pressAndMove_inRange [OF b] andThen_Inr_nil
        mouseReleaseEvent_flag same' del: andThen_Inr)
  ultimately show ?thesis using d1 d2 by simp
qed


text \<open>
  The arithmetic stays in range for all positions whose scene coordinates are below 16384
  in absolute value.
\<close>

lemma truncate_small: "\<bar>x\<bar> < 16384 \<Longrightarrow> \<bar>truncateReal x\<bar> \<le> 16383"
  unfolding truncateReal_def by (cases "0 \<le> x") (simp_all, linarith+)

lemma square_small:
  fixes d :: int
  assumes "\<bar>d\<bar> \<le> 32766"
  shows "0 \<le> d * d" and "d * d \<le> 1073610756"
proof -
  show "0 \<le> d * d" by simp
  have "d * d = \<bar>d\<bar> * \<bar>d\<bar>" by (simp add: abs_mult_self_eq)
  also have "\<dots> \<le> 32766 * 32766"
    using assms by (intro mult_mono) simp_all
  finally show "d * d \<le> 1073610756" by simp
qed

lemma inInt_bounds: "0 \<le> i \<Longrightarrow> i \<le> 2147483647 \<Longrightarrow> inInt i"
  by (simp add: inInt_def INT_MIN_def INT_MAX_def)

lemma inInt_abs: "\<bar>i\<bar> \<le> 32766 \<Longrightarrow> inInt i"
  by (auto simp: inInt_def INT_MIN_def INT_MAX_def)

lemma small_moveInRange:
  assumes "smallPosition p" and "smallPosition q"
  shows "moveInRange p q"
proof -
  define dx where "dx = truncateReal (fst q) - truncateReal (fst p)"
  define dy where "dy = truncateReal (snd q) - truncateReal (snd p)"
  from assms have t:
    "\<bar>truncateReal (fst p)\<bar> \<le> 16383" "\<bar>truncateReal (snd p)\<bar> \<le> 16383"
    "\<bar>truncateReal (fst q)\<bar> \<le> 16383" "\<bar>truncateReal (snd q)\<bar> \<le> 16383"
    by (simp_all add: smallPosition_def truncate_small)
  then have d: "\<bar>dx\<bar> \<le> 32766" "\<bar>dy\<bar> \<le> 32766"
    unfolding dx_def dy_def by linarith+
  have pos: "positionInRange q"
    using t by (simp add: positionInRange_def inInt_abs)
  have xx: "0 \<le> dx * dx" "dx * dx \<le> 1073610756"
    using square_small [OF d(1)] by simp_all
  have yy: "0 \<le> dy * dy" "dy * dy \<le> 1073610756"
    using square_small [OF d(2)] by simp_all
  have "inInt dx" "inInt dy"
    using d by (simp_all add: inInt_abs)
  moreover have "inInt (dx * dx)" "inInt (dy * dy)"
    using xx yy by (simp_all add: inInt_bounds)
  moreover have "inInt (dx * dx + dy * dy)"
    using xx yy by (intro inInt_bounds) linarith+
  ultimately show ?thesis
    using pos unfolding moveInRange_def dx_def dy_def by simp
qed

lemma small_positionInRange: "smallPosition p \<Longrightarrow> positionInRange p"
  by (simp add: smallPosition_def positionInRange_def inInt_abs truncate_small
      order_trans [OF truncate_small])

lemma small_allMovesInRange:
  assumes "smallPosition p" and "list_all smallPosition qs"
  shows "allMovesInRange p qs"
  using assms small_moveInRange [of p] small_positionInRange [of p]
  by (auto simp: allMovesInRange_def list_all_iff)

subsection \<open>The child in the states of an edge\<close>

lemma lineKind_frame:
  "lineKind env (e\<lparr>m_direction := d\<rparr>) = lineKind env e"
  "lineKind env (e\<lparr>m_mouseMoved := b\<rparr>) = lineKind env e"
  "lineKind env (e\<lparr>m_mousePos := p\<rparr>) = lineKind env e"
  by (simp_all add: lineKind_def)

lemma childFits_frame [simp]:
  "childFits env (e\<lparr>m_direction := d\<rparr>) = childFits env e"
  "childFits env (e\<lparr>m_mouseMoved := b\<rparr>) = childFits env e"
  "childFits env (e\<lparr>m_mousePos := p\<rparr>) = childFits env e"
  by (simp_all add: childFits_def lineKind_frame cong: option.case_cong)

lemma setIsActive_childFits:
  assumes "straightByType env" and "childFits env e"
    and "setIsActive env h b e = Inr (e', out)"
  shows "childFits env e'"
proof (cases "m_isActive e = b")
  case True
  with assms show ?thesis by (simp add: setIsActive_def)
next
  case False
  with assms have "updateLine env h (e\<lparr>m_isActive := b\<rparr>) = Inr (e', out)"
    by (simp add: setIsActive_def)
  moreover from assms have "childFits env (e\<lparr>m_isActive := b\<rparr>)"
    by (simp add: childFits_isActive)
  ultimately show ?thesis by (rule updateLine_childFits)
qed

lemma setDirection_childFits:
  assumes "childFits env e" and "setDirection env h d e = Inr (e', out)"
  shows "childFits env e'"
proof (cases "m_direction e = d")
  case True
  with assms show ?thesis by (simp add: setDirection_def)
next
  case False
  with assms have "updateLine env h (e\<lparr>m_direction := d\<rparr>) = Inr (e', out)"
    by (simp add: setDirection_def)
  moreover from assms have "childFits env (e\<lparr>m_direction := d\<rparr>)"
    by simp
  ultimately show ?thesis by (rule updateLine_childFits)
qed

lemma focusIn_childFits:
  assumes "straightByType env" and "childFits env e" and "focusIn env h e = Inr (e', out)"
  shows "childFits env e'"
proof (cases "setIsActive env h True e")
  case (Inl err)
  with assms show ?thesis by (simp add: focusIn_def)
next
  case (Inr r)
  obtain e1 out1 where r: "r = (e1, out1)" by (cases r)
  with Inr assms have e': "e' = e1\<lparr>m_isActive := m_isActive e\<rparr>"
    by (auto simp: focusIn_def)
  from Inr r assms have "childFits env e1"
    using setIsActive_childFits by blast
  with assms e' show ?thesis by (simp add: childFits_isActive)
qed

lemma onClick_state: "onClick h e = Inr (e', out) \<Longrightarrow> e' = e"
  by (auto simp: onClick_def Let_def split: option.splits if_splits)

lemma mousePressEvent_childFits:
  "mousePressEvent p e = Inr (e', out) \<Longrightarrow> childFits env e' = childFits env e"
  by (auto simp: mousePressEvent_def split: sum.splits)

lemma mouseMoveEvent_childFits:
  "mouseMoveEvent p e = Inr (e', out) \<Longrightarrow> childFits env e' = childFits env e"
  by (auto simp: mouseMoveEvent_def split: sum.splits if_splits)

lemma mouseReleaseEvent_state: "mouseReleaseEvent h e = Inr (e', out) \<Longrightarrow> e' = e"
  by (auto simp: mouseReleaseEvent_def dest: onClick_state split: if_splits)

lemma hoverEnterEvent_childFits:
  assumes "straightByType env" and "childFits env e"
    and "hoverEnterEvent env h e = Inr (e', out)"
  shows "childFits env e'"
  using assms
  by (cases "getData e") (auto simp: hoverEnterEvent_def dest: focusIn_childFits)

lemma hoverLeaveEvent_childFits:
  assumes "childFits env e" and "hoverLeaveEvent env h e = Inr (e', out)"
  shows "childFits env e'"
  using assms
  by (cases "getData e")
     (auto simp: hoverLeaveEvent_def focusOut_def dest: updateLine_childFits)

text \<open>
  When \<open>isStraight\<close> of the style does not depend on the activity, the child of an edge
  is in every state of the class that \<open>updateLine\<close> selects, so that \<open>updateLine\<close>
  returns in every state.
\<close>

lemma reachable_childFits:
  assumes "straightByType env" and "reachable env e"
  shows "childFits env e"
  using assms(2)
proof (induction rule: reachable.induct)
  case (constructed h owner target data weight isActive direction e out)
  then show ?case by (rule QtGraphEdge_new_childFits)
next
  case (after_updateLine e h e' out)
  then show ?case using updateLine_childFits by blast
next
  case (after_setIsActive e h b e' out)
  then show ?case using setIsActive_childFits [OF assms(1)] by blast
next
  case (after_setDirection e h d e' out)
  then show ?case using setDirection_childFits by blast
next
  case (after_focusIn e h e' out)
  then show ?case using focusIn_childFits [OF assms(1)] by blast
next
  case (after_focusOut e h e' out)
  then show ?case using updateLine_childFits by (auto simp: focusOut_def)
next
  case (after_onClick e h e' out)
  then show ?case by (auto dest: onClick_state)
next
  case (after_mousePressEvent e p e' out)
  then show ?case by (simp add: mousePressEvent_childFits)
next
  case (after_mouseMoveEvent e p e' out)
  then show ?case by (simp add: mouseMoveEvent_childFits)
next
  case (after_mouseReleaseEvent e h e' out)
  then show ?case by (auto dest: mouseReleaseEvent_state)
next
  case (after_hoverEnterEvent e h e' out)
  then show ?case using hoverEnterEvent_childFits [OF assms(1)] by blast
next
  case (after_hoverLeaveEvent e h e' out)
  then show ?case using hoverLeaveEvent_childFits by blast
qed

lemma reachable_updateLine_returns:
  assumes "straightByType env" and "reachable env e"
  shows "\<exists>e' out. updateLine env h e = Inr (e', out)"
  using reachable_childFits [OF assms] by (rule updateLine_total)

end
